theory Spec2Isabelle
  imports
    Complex_Main
    "HOL-Library.Char_ord"
    "HOL-Library.List_Lexorder"
    "HOL-Library.Sublist"
    "HOL-Library.Multiset"
begin

section \<open>JavaScript numbers\<close>

text \<open>
  A JavaScript number is an IEEE 754 double: a finite value, one of the two infinities, or
  NaN. \<open>Fin r\<close> is the double of value \<open>r\<close>. The negative zero is identified with
  zero: it differs from zero only as a divisor, and the code divides by an income that it
  has tested to be greater than zero, and by the target of the goal, which \<^verbatim>\<open>setGoal\<close>
  has tested to be greater than zero.
\<close>

datatype jsnum = Fin real | PInf | NInf | NaN

text \<open>
  Rounding to the nearest double, ties to the even significand. A double is an integer
  multiple of a power of two: of \<open>2 ^ (e - 52)\<close> where \<open>2 ^ e\<close> is the power of two at or
  below its magnitude, and of \<open>2 ^ -1074\<close> for the subnormal numbers. A result that
  rounds to \<open>2 ^ 1024\<close> or beyond is infinite.
\<close>

definition round_even :: "real \<Rightarrow> int" where
  "round_even q =
     (let f = \<lfloor>q\<rfloor>; d = q - of_int f
      in if d < 1 / 2 then f
         else if 1 / 2 < d then f + 1
         else if even f then f else f + 1)"

definition min_subnormal :: real where
  "min_subnormal = 2 powi (- 1074)"

definition overflow_limit :: real where
  "overflow_limit = 2 ^ 1024"

definition ulp_exponent :: "real \<Rightarrow> int" where
  "ulp_exponent x = max (\<lfloor>log 2 \<bar>x\<bar>\<rfloor> - 52) (- 1074)"

definition to_double :: "real \<Rightarrow> jsnum" where
  "to_double x =
     (if x = 0 then Fin 0
      else
        (let e = ulp_exponent x;
             y = of_int (round_even (x / 2 powi e)) * 2 powi e
         in if overflow_limit \<le> y then PInf
            else if y \<le> - overflow_limit then NInf
            else Fin y))"

text \<open>The operators \<^verbatim>\<open>+\<close>, \<^verbatim>\<open>-\<close>, \<^verbatim>\<open>*\<close> and \<^verbatim>\<open>/\<close> on numbers.\<close>

fun js_add :: "jsnum \<Rightarrow> jsnum \<Rightarrow> jsnum" where
  "js_add NaN b = NaN"
| "js_add a NaN = NaN"
| "js_add PInf NInf = NaN"
| "js_add NInf PInf = NaN"
| "js_add PInf b = PInf"
| "js_add a PInf = PInf"
| "js_add NInf b = NInf"
| "js_add a NInf = NInf"
| "js_add (Fin a) (Fin b) = to_double (a + b)"

fun js_sub :: "jsnum \<Rightarrow> jsnum \<Rightarrow> jsnum" where
  "js_sub NaN b = NaN"
| "js_sub a NaN = NaN"
| "js_sub PInf PInf = NaN"
| "js_sub NInf NInf = NaN"
| "js_sub PInf b = PInf"
| "js_sub a PInf = NInf"
| "js_sub NInf b = NInf"
| "js_sub a NInf = PInf"
| "js_sub (Fin a) (Fin b) = to_double (a - b)"

text \<open>The sign of a number that is not NaN, for the product with an infinity.\<close>

fun sign_of :: "jsnum \<Rightarrow> real" where
  "sign_of (Fin a) = sgn a"
| "sign_of PInf = 1"
| "sign_of NInf = - 1"
| "sign_of NaN = 0"

fun js_mul :: "jsnum \<Rightarrow> jsnum \<Rightarrow> jsnum" where
  "js_mul NaN b = NaN"
| "js_mul a NaN = NaN"
| "js_mul (Fin a) (Fin b) = to_double (a * b)"
| "js_mul a b =
     (if 0 < sign_of a * sign_of b then PInf
      else if sign_of a * sign_of b < 0 then NInf
      else NaN)"

fun js_div :: "jsnum \<Rightarrow> jsnum \<Rightarrow> jsnum" where
  "js_div NaN b = NaN"
| "js_div a NaN = NaN"
| "js_div (Fin a) (Fin b) =
     (if b \<noteq> 0 then to_double (a / b)
      else if a = 0 then NaN
      else if 0 < a then PInf
      else NInf)"
| "js_div (Fin a) b = Fin 0"
| "js_div PInf (Fin b) = (if 0 \<le> b then PInf else NInf)"
| "js_div NInf (Fin b) = (if 0 \<le> b then NInf else PInf)"
| "js_div a b = NaN"

text \<open>
  The comparisons \<^verbatim>\<open><\<close> and \<^verbatim>\<open><=\<close>, false when an operand is NaN; \<^verbatim>\<open>a > b\<close> is
  \<^verbatim>\<open>b < a\<close> and \<^verbatim>\<open>a >= b\<close> is \<^verbatim>\<open>b <= a\<close>. Equality \<^verbatim>\<open>==\<close> of numbers: NaN equals
  nothing.
\<close>

fun js_lt :: "jsnum \<Rightarrow> jsnum \<Rightarrow> bool" where
  "js_lt NaN b = False"
| "js_lt a NaN = False"
| "js_lt (Fin a) (Fin b) = (a < b)"
| "js_lt a NInf = False"
| "js_lt PInf b = False"
| "js_lt NInf b = True"
| "js_lt a PInf = True"

fun js_le :: "jsnum \<Rightarrow> jsnum \<Rightarrow> bool" where
  "js_le NaN b = False"
| "js_le a NaN = False"
| "js_le (Fin a) (Fin b) = (a \<le> b)"
| "js_le NInf b = True"
| "js_le a PInf = True"
| "js_le a b = False"

definition js_gt :: "jsnum \<Rightarrow> jsnum \<Rightarrow> bool" where
  "js_gt a b = js_lt b a"

definition js_ge :: "jsnum \<Rightarrow> jsnum \<Rightarrow> bool" where
  "js_ge a b = js_le b a"

fun js_eq :: "jsnum \<Rightarrow> jsnum \<Rightarrow> bool" where
  "js_eq NaN b = False"
| "js_eq a NaN = False"
| "js_eq a b = (a = b)"

text \<open>\<^verbatim>\<open>Math.max\<close> and \<^verbatim>\<open>Math.min\<close> of two numbers: NaN when an argument is NaN.\<close>

fun Math_max :: "jsnum \<Rightarrow> jsnum \<Rightarrow> jsnum" where
  "Math_max NaN b = NaN"
| "Math_max a NaN = NaN"
| "Math_max PInf b = PInf"
| "Math_max a PInf = PInf"
| "Math_max NInf b = b"
| "Math_max a NInf = a"
| "Math_max (Fin a) (Fin b) = Fin (max a b)"

fun Math_min :: "jsnum \<Rightarrow> jsnum \<Rightarrow> jsnum" where
  "Math_min NaN b = NaN"
| "Math_min a NaN = NaN"
| "Math_min NInf b = NInf"
| "Math_min a NInf = NInf"
| "Math_min PInf b = b"
| "Math_min a PInf = a"
| "Math_min (Fin a) (Fin b) = Fin (min a b)"

text \<open>A number is falsy when it is zero or NaN.\<close>

definition js_falsy :: "jsnum \<Rightarrow> bool" where
  "js_falsy v = (v = Fin 0 \<or> v = NaN)"

text \<open>
  \<^verbatim>\<open>JSON.stringify\<close> writes a finite number as its shortest decimal numeral, which
  \<^verbatim>\<open>JSON.parse\<close> reads back as the same double, and writes NaN and the infinities as
  \<^verbatim>\<open>null\<close>. A stored number is what \<^verbatim>\<open>JSON.parse\<close> gives back.
\<close>

datatype json_number = JNumber real | JNull

fun json_of_number :: "jsnum \<Rightarrow> json_number" where
  "json_of_number (Fin r) = JNumber r"
| "json_of_number PInf = JNull"
| "json_of_number NInf = JNull"
| "json_of_number NaN = JNull"

text \<open>
  \<^verbatim>\<open>String.prototype.trim\<close>: white space and line terminators are dropped at both ends.
  Strings are lists of code units; of the code units that JavaScript counts as white
  space, those below 256 are U+0009 to U+000D, U+0020 and U+00A0.
\<close>

definition is_ws :: "char \<Rightarrow> bool" where
  "is_ws c = (c = CHR 0x09 \<or> c = CHR 0x0A \<or> c = CHR 0x0B \<or> c = CHR 0x0C \<or> c = CHR 0x0D
              \<or> c = CHR 0x20 \<or> c = CHR 0xA0)"

definition js_trim :: "string \<Rightarrow> string" where
  "js_trim s = rev (dropWhile is_ws (rev (dropWhile is_ws s)))"

section \<open>Student Finance Tracker: the data model of script.js\<close>

text \<open>
  A transaction is the object literal built in \<^verbatim>\<open>addTransaction\<close> (script.js, section 6):
  \<^verbatim>\<open>{ id, type, amount, category, date, desc }\<close>. The fields \<^verbatim>\<open>id\<close> and \<^verbatim>\<open>type\<close> are
  named \<open>id_txn\<close> and \<open>type_txn\<close> here. The amount is a number in memory (whatever
  \<^verbatim>\<open>parseFloat\<close> returned) and a stored number in localStorage.
\<close>

record 'n transaction_of =
  id_txn :: string
  type_txn :: string
  amount :: 'n
  category :: string
  date :: string
  desc :: string

type_synonym transaction = "jsnum transaction_of"

type_synonym stored_transaction = "json_number transaction_of"

text \<open>The savings goal \<^verbatim>\<open>{name, target}\<close>; the variable \<^verbatim>\<open>savingsGoal\<close> holds one or null.\<close>

record 'n goal_of =
  name :: string
  target :: 'n

type_synonym savings_goal = "jsnum goal_of"

type_synonym stored_goal = "json_number goal_of"

text \<open>What \<^verbatim>\<open>JSON.parse(JSON.stringify(x))\<close> is for a transaction and for a goal.\<close>

definition stored_txn :: "transaction \<Rightarrow> stored_transaction" where
  "stored_txn t =
     \<lparr>id_txn = id_txn t, type_txn = type_txn t, amount = json_of_number (amount t),
      category = category t, date = date t, desc = desc t\<rparr>"

definition stored_goal_of :: "savings_goal \<Rightarrow> stored_goal" where
  "stored_goal_of g = \<lparr>name = name g, target = json_of_number (target g)\<rparr>"

text \<open>The three keys of \<^verbatim>\<open>STORAGE_KEYS\<close> in localStorage. An absent key is \<open>None\<close>.\<close>

record storage =
  sft_transactions :: "stored_transaction list option"
  sft_theme :: "string option"
  sft_goal :: "stored_goal option"

text \<open>The mutable globals of section 2 of script.js, and the store they are saved to.\<close>

record app_state =
  transactions :: "transaction list"
  savingsGoal :: "savings_goal option"
  localStorage :: storage

text \<open>The category vocabulary and the palette, as the constants of section 1 have them.\<close>

definition CATEGORIES :: "string \<Rightarrow> string list" where
  "CATEGORIES ty =
     (if ty = ''income'' then
        [''Gaji'', ''Freelance'', ''Beasiswa'', ''Hadiah'', ''Investasi'', ''Bonus'',
         ''Bisnis'', ''Part-time'', ''Komisi'', ''Transfer Masuk'', ''Lainnya'']
      else if ty = ''expense'' then
        [''Makanan'', ''Minuman'', ''Transportasi'', ''Pendidikan'', ''Hiburan'',
         ''Kos/Sewa'', ''Listrik & Air'', ''Internet & Pulsa'', ''Kesehatan'', ''Belanja'',
         ''Langganan'', ''Laundry'', ''Parkir'', ''Bensin'', ''Pakaian'', ''Perawatan Diri'',
         ''Donasi'', ''Cicilan'', ''Tabungan'', ''Lainnya'']
      else [])"

definition PIE_COLORS :: "string list" where
  "PIE_COLORS =
     [''#6366f1'', ''#818cf8'', ''#a78bfa'', ''#c084fc'',
      ''#f472b6'', ''#fb7185'', ''#f87171'', ''#fbbf24'',
      ''#34d399'', ''#2dd4bf'']"

section \<open>Transaction CRUD (script.js, section 6)\<close>

text \<open>\<^verbatim>\<open>persist()\<close>: \<^verbatim>\<open>saveJSON(STORAGE_KEYS.TRANSACTIONS, transactions)\<close>.\<close>

definition persist :: "app_state \<Rightarrow> app_state" where
  "persist st =
     st\<lparr>localStorage := (localStorage st)\<lparr>sft_transactions := Some (map stored_txn (transactions st))\<rparr>\<rparr>"

text \<open>
  What \<^verbatim>\<open>addTransaction\<close> reads from the form: the values of the five inputs, the amount
  after \<^verbatim>\<open>parseFloat\<close>, which is NaN for an empty field. No value is checked.
\<close>

record form_values =
  form_type :: string
  form_amount :: jsnum
  form_category :: string
  form_date :: string
  form_desc :: string

text \<open>
  \<^verbatim>\<open>addTransaction(e)\<close>. The fresh id \<^verbatim>\<open>uid()\<close> comes from the clock and the random number
  generator; it is an argument here. \<^verbatim>\<open>refresh()\<close> re-renders the views, which are the
  functions of the state defined below.
\<close>

definition addTransaction :: "string \<Rightarrow> form_values \<Rightarrow> app_state \<Rightarrow> app_state" where
  "addTransaction uid f st =
     (let txn = \<lparr>id_txn = uid, type_txn = form_type f, amount = form_amount f,
                 category = form_category f, date = form_date f,
                 desc = js_trim (form_desc f)\<rparr>
      in persist (st\<lparr>transactions := transactions st @ [txn]\<rparr>))"

text \<open>\<^verbatim>\<open>deleteTransaction(id)\<close>: \<^verbatim>\<open>transactions.filter((t) => t.id !== id)\<close>, then persist.\<close>

definition deleteTransaction :: "string \<Rightarrow> app_state \<Rightarrow> app_state" where
  "deleteTransaction i st =
     persist (st\<lparr>transactions := filter (\<lambda>t. id_txn t \<noteq> i) (transactions st)\<rparr>)"

text \<open>A sequence of user actions on the transaction list, run from left to right.\<close>

datatype event = Add string form_values | Delete string

fun run :: "event list \<Rightarrow> app_state \<Rightarrow> app_state" where
  "run [] st = st"
| "run (Add uid f # es) st = run es (addTransaction uid f st)"
| "run (Delete i # es) st = run es (deleteTransaction i st)"

section \<open>Calculations (script.js, section 7)\<close>

record totals =
  income :: jsnum
  expense :: jsnum
  balance :: jsnum

text \<open>\<^verbatim>\<open>calcTotals()\<close>: two filter-and-reduce passes over the current list.\<close>

definition calcTotals :: "transaction list \<Rightarrow> totals" where
  "calcTotals txs =
     (let inc = foldl (\<lambda>s t. js_add s (amount t)) (Fin 0)
                  (filter (\<lambda>t. type_txn t = ''income'') txs);
          exp = foldl (\<lambda>s t. js_add s (amount t)) (Fin 0)
                  (filter (\<lambda>t. type_txn t = ''expense'') txs)
      in \<lparr>income = inc, expense = exp, balance = js_sub inc exp\<rparr>)"

section \<open>Summary cards (script.js, section 8)\<close>

text \<open>
  What \<^verbatim>\<open>renderSummary()\<close> writes to the page: the three amounts (each shown through
  \<^verbatim>\<open>currency\<close>), the colour of the balance, the width of the balance bar (the number in
  front of the per cent sign) and whether the alert banner has the class \<^verbatim>\<open>visible\<close>.
\<close>

record summary_view =
  totalBalance :: jsnum
  totalIncome :: jsnum
  totalExpense :: jsnum
  totalBalance_color :: string
  balanceBar_width :: jsnum
  alertBanner_visible :: bool

definition renderSummary :: "transaction list \<Rightarrow> summary_view" where
  "renderSummary txs =
     (let tot = calcTotals txs;
          inc = income tot; exp = expense tot; bal = balance tot;
          pct = (if js_gt inc (Fin 0)
                 then Math_max (Fin 0) (Math_min (Fin 100) (js_mul (js_div bal inc) (Fin 100)))
                 else Fin 0)
      in \<lparr>totalBalance = bal, totalIncome = inc, totalExpense = exp,
          totalBalance_color = (if js_ge bal (Fin 0) then [] else ''var(--expense-color)''),
          balanceBar_width = pct,
          alertBanner_visible = (if js_gt exp inc \<and> js_gt inc (Fin 0) then True else False)\<rparr>)"

section \<open>Transaction table (script.js, section 9)\<close>

text \<open>
  \<^verbatim>\<open>a.localeCompare(b)\<close> compares by the collation of the host's locale, which the program
  does not choose: the built-in is the argument \<open>lc\<close> of the functions below, with
  \<open>lc a b\<close> for \<^verbatim>\<open>a.localeCompare(b)\<close>. The language standard requires it to be a
  consistent comparator on all strings, which is what the sort needs: equal to itself,
  antisymmetric in its sign, and transitive.
\<close>

definition consistent_comparator :: "(string \<Rightarrow> string \<Rightarrow> int) \<Rightarrow> bool" where
  "consistent_comparator lc =
     ((\<forall>a. lc a a = 0)
      \<and> (\<forall>a b. (lc a b < 0) = (0 < lc b a))
      \<and> (\<forall>a b c. lc a b \<le> 0 \<and> lc b c \<le> 0 \<longrightarrow> lc a c \<le> 0))"

text \<open>One such comparator: the order of the code units.\<close>

definition codeunit_compare :: "string \<Rightarrow> string \<Rightarrow> int" where
  "codeunit_compare a b = (if a < b then - 1 else if a = b then 0 else 1)"

text \<open>\<^verbatim>\<open>x || y\<close> on numbers that are not NaN: \<open>y\<close> when \<open>x\<close> is zero.\<close>

definition js_or :: "int \<Rightarrow> int \<Rightarrow> int" where
  "js_or x y = (if x \<noteq> 0 then x else y)"

text \<open>
  The compare function of \<^verbatim>\<open>renderTable\<close>:
  \<^verbatim>\<open>(a, b) => b.date.localeCompare(a.date) || b.id.localeCompare(a.id)\<close>.
\<close>

definition compareTxn :: "(string \<Rightarrow> string \<Rightarrow> int) \<Rightarrow> transaction \<Rightarrow> transaction \<Rightarrow> int" where
  "compareTxn lc a b = js_or (lc (date b) (date a)) (lc (id_txn b) (id_txn a))"

text \<open>
  \<^verbatim>\<open>Array.prototype.sort(cmp)\<close> with a consistent comparator is the stable sort: an
  element goes in front of the first one it does not compare greater than.
\<close>

fun insert_sorted :: "('a \<Rightarrow> 'a \<Rightarrow> int) \<Rightarrow> 'a \<Rightarrow> 'a list \<Rightarrow> 'a list" where
  "insert_sorted cmp x [] = [x]"
| "insert_sorted cmp x (y # ys) =
     (if cmp x y \<le> 0 then x # y # ys else y # insert_sorted cmp x ys)"

definition js_sort :: "('a \<Rightarrow> 'a \<Rightarrow> int) \<Rightarrow> 'a list \<Rightarrow> 'a list" where
  "js_sort cmp xs = foldr (insert_sorted cmp) xs []"

text \<open>
  \<^verbatim>\<open>renderTable()\<close>: the rows in the order shown, and whether the empty-state element has
  the class \<^verbatim>\<open>visible\<close>. The filter is the value of the \<^verbatim>\<open>filterType\<close> select.
\<close>

record table_view =
  rows :: "transaction list"
  tableEmpty_visible :: bool

definition renderTable :: "(string \<Rightarrow> string \<Rightarrow> int) \<Rightarrow> string \<Rightarrow> transaction list \<Rightarrow> table_view" where
  "renderTable lc flt txs =
     (let sorted_list = js_sort (compareTxn lc) txs;
          list = (if flt \<noteq> ''all'' then filter (\<lambda>t. type_txn t = flt) sorted_list
                  else sorted_list)
      in if length list = 0 then \<lparr>rows = list, tableEmpty_visible = True\<rparr>
         else \<lparr>rows = list, tableEmpty_visible = False\<rparr>)"

section \<open>Pie chart (script.js, section 10)\<close>

text \<open>
  The object \<^verbatim>\<open>grouped\<close> of \<^verbatim>\<open>renderPieChart\<close> starts as \<^verbatim>\<open>{}\<close>. It is the list of its own
  properties in the order of their creation: writing an existing property keeps its
  place, writing a new one appends it. A value is a number, or a string where the code
  has added an amount to something that is not a number; the text of such a string
  depends on the engine and is not kept.
\<close>

datatype jsval = Num jsnum | Str

fun obj_set :: "(string \<times> 'v) list \<Rightarrow> string \<Rightarrow> 'v \<Rightarrow> (string \<times> 'v) list" where
  "obj_set [] k v = [(k, v)]"
| "obj_set ((k', v') # kvs) k v =
     (if k' = k then (k, v) # kvs else (k', v') # obj_set kvs k v)"

text \<open>
  What the empty object inherits from \<^verbatim>\<open>Object.prototype\<close>: eleven functions, and the
  accessor \<^verbatim>\<open>__proto__\<close>, which reads as the prototype object and ignores the assignment
  of a value that is not an object.
\<close>

definition Object_prototype_functions :: "string list" where
  "Object_prototype_functions =
     [''constructor'', ''hasOwnProperty'', ''isPrototypeOf'', ''propertyIsEnumerable'',
      ''toLocaleString'', ''toString'', ''valueOf'', ''__defineGetter__'',
      ''__defineSetter__'', ''__lookupGetter__'', ''__lookupSetter__'']"

text \<open>
  The body of the \<^verbatim>\<open>forEach\<close>:
  \<^verbatim>\<open>grouped[t.category] = (grouped[t.category] || 0) + t.amount\<close>. An own number that is
  zero or NaN is falsy and replaced by 0; an own string, an inherited function and the
  prototype object are truthy, and adding a number to them makes a string; a name that is
  neither own nor inherited reads as \<^verbatim>\<open>undefined\<close>, which is falsy.
\<close>

definition add_expense :: "(string \<times> jsval) list \<Rightarrow> transaction \<Rightarrow> (string \<times> jsval) list" where
  "add_expense g t =
     (let c = category t
      in if c = ''__proto__'' then g
         else
           (case map_of g c of
              Some (Num v) \<Rightarrow> obj_set g c (Num (js_add (if js_falsy v then Fin 0 else v) (amount t)))
            | Some Str \<Rightarrow> obj_set g c Str
            | None \<Rightarrow>
                if c \<in> set Object_prototype_functions then obj_set g c Str
                else obj_set g c (Num (js_add (Fin 0) (amount t)))))"

definition grouped :: "transaction list \<Rightarrow> (string \<times> jsval) list" where
  "grouped txs = foldl add_expense [] (filter (\<lambda>t. type_txn t = ''expense'') txs)"

text \<open>
  \<^verbatim>\<open>Object.keys\<close> and \<^verbatim>\<open>Object.values\<close> list the own properties with the array indices
  first, in ascending numeric order, and then the other names in the order of creation.
  An array index is the canonical decimal numeral of an integer from 0 to
  \<open>2 ^ 32 - 2\<close>.
\<close>

definition index_value :: "string \<Rightarrow> nat" where
  "index_value s = foldl (\<lambda>n c. 10 * n + (of_char c - 48)) 0 s"

definition is_array_index :: "string \<Rightarrow> bool" where
  "is_array_index s =
     (s \<noteq> [] \<and> list_all (\<lambda>c. c \<in> set ''0123456789'') s
      \<and> (s = ''0'' \<or> hd s \<noteq> CHR ''0'')
      \<and> index_value s < 4294967295)"

definition own_properties :: "(string \<times> 'v) list \<Rightarrow> (string \<times> 'v) list" where
  "own_properties g =
     sort_key (\<lambda>p. index_value (fst p)) (filter (\<lambda>p. is_array_index (fst p)) g)
     @ filter (\<lambda>p. \<not> is_array_index (fst p)) g"

definition Object_keys :: "(string \<times> 'v) list \<Rightarrow> string list" where
  "Object_keys g = map fst (own_properties g)"

definition Object_values :: "(string \<times> 'v) list \<Rightarrow> 'v list" where
  "Object_values g = map snd (own_properties g)"

text \<open>
  The configuration handed to \<^verbatim>\<open>new Chart\<close>: one slice per label.
  \<^verbatim>\<open>PIE_COLORS.slice(0, labels.length)\<close> is \<open>take\<close>.
\<close>

record pie_chart =
  labels :: "string list"
  data :: "jsval list"
  backgroundColor :: "string list"

record pie_view =
  pieEmpty_visible :: bool
  pieChart :: "pie_chart option"

definition renderPieChart :: "transaction list \<Rightarrow> pie_view" where
  "renderPieChart txs =
     (let g = grouped txs; ls = Object_keys g; ds = Object_values g
      in if length ls = 0 then \<lparr>pieEmpty_visible = True, pieChart = None\<rparr>
         else \<lparr>pieEmpty_visible = False,
               pieChart = Some \<lparr>labels = ls, data = ds,
                                backgroundColor = take (length ls) PIE_COLORS\<rparr>\<rparr>)"

text \<open>
  Modelled from the spec: the chart library (Chart.js, loaded by the page and not part
  of the repository) draws slice \<open>i\<close> in the colour at index \<open>i\<close> of
  \<^verbatim>\<open>backgroundColor\<close>, cycling through the list when there are more slices than colours.
\<close>

definition slice_color :: "pie_chart \<Rightarrow> nat \<Rightarrow> string" where
  "slice_color ch i = backgroundColor ch ! (i mod length (backgroundColor ch))"

section \<open>Savings goal (script.js, section 11)\<close>

text \<open>
  \<^verbatim>\<open>setGoal()\<close>. Its two inputs are the value of the name field and the result of
  \<^verbatim>\<open>parseFloat\<close> on the value of the amount field. The three tests of the guard are
  \<^verbatim>\<open>!name\<close>, \<^verbatim>\<open>!target\<close> and \<^verbatim>\<open>target <= 0\<close>. The goal is then assigned and saved with
  \<^verbatim>\<open>saveJSON\<close>.
\<close>

definition setGoal :: "string \<Rightarrow> jsnum \<Rightarrow> app_state \<Rightarrow> app_state" where
  "setGoal goalName_value parsed st =
     (let nm = js_trim goalName_value; tg = parsed
      in if nm = [] \<or> js_falsy tg \<or> js_le tg (Fin 0) then st
         else st\<lparr>savingsGoal := Some \<lparr>name = nm, target = tg\<rparr>,
                 localStorage :=
                   (localStorage st)\<lparr>sft_goal := Some (stored_goal_of \<lparr>name = nm, target = tg\<rparr>)\<rparr>\<rparr>)"

text \<open>
  \<^verbatim>\<open>renderGoal()\<close>: \<open>None\<close> when the goal panel is hidden. The note under the bar is one
  of two texts: the congratulation, or the amount remaining with the percentage.
\<close>

datatype goal_note = Reached | Remaining jsnum jsnum

record goal_view =
  goalLabel :: string
  goalProgress_saved :: jsnum
  goalProgress_target :: jsnum
  goalBar_width :: jsnum
  goalNote :: goal_note

definition renderGoal :: "savings_goal option \<Rightarrow> transaction list \<Rightarrow> goal_view option" where
  "renderGoal goal txs =
     (case goal of
        None \<Rightarrow> None
      | Some g \<Rightarrow>
          (let bal = balance (calcTotals txs);
               saved = Math_max (Fin 0) bal;
               pct = Math_min (Fin 100) (js_mul (js_div saved (target g)) (Fin 100))
           in Some \<lparr>goalLabel = name g,
                    goalProgress_saved = saved,
                    goalProgress_target = target g,
                    goalBar_width = pct,
                    goalNote = (if js_ge pct (Fin 100) then Reached
                                else Remaining (js_sub (target g) saved) pct)\<rparr>))"

section \<open>The words of the specification\<close>

text \<open>
  Row \<open>a\<close> may stand above row \<open>b\<close>: by date descending, ties broken by id descending,
  both in the order of the comparator.
\<close>

definition date_desc_id_desc :: "(string \<Rightarrow> string \<Rightarrow> int) \<Rightarrow> transaction \<Rightarrow> transaction \<Rightarrow> bool" where
  "date_desc_id_desc lc a b =
     (lc (date b) (date a) < 0 \<or> (lc (date b) (date a) = 0 \<and> lc (id_txn b) (id_txn a) \<le> 0))"

text \<open>First-seen order: each element once, at the place of its first occurrence.\<close>

fun first_seen :: "'a list \<Rightarrow> 'a list" where
  "first_seen [] = []"
| "first_seen (x # xs) = x # first_seen (filter (\<lambda>y. y \<noteq> x) xs)"

text \<open>
  The value of a finite number. A whole amount is a finite number that is a non-negative
  integer; a list has whole amounts when every amount is whole and their sum is at most
  \<open>2 ^ 53\<close>, the range in which doubles add integers without rounding. A positive number
  is a double above zero, the least of which is \<open>2 ^ -1074\<close>, or the positive infinity.
\<close>

fun finite_value :: "jsnum \<Rightarrow> real" where
  "finite_value (Fin r) = r"
| "finite_value PInf = 0"
| "finite_value NInf = 0"
| "finite_value NaN = 0"

fun is_whole :: "jsnum \<Rightarrow> bool" where
  "is_whole (Fin r) = (0 \<le> r \<and> of_int \<lfloor>r\<rfloor> = r)"
| "is_whole PInf = False"
| "is_whole NInf = False"
| "is_whole NaN = False"

definition whole_amounts :: "transaction list \<Rightarrow> bool" where
  "whole_amounts txs =
     (list_all (\<lambda>t. is_whole (amount t)) txs
      \<and> sum_list (map (\<lambda>t. finite_value (amount t)) txs) \<le> 2 ^ 53)"

fun is_positive :: "jsnum \<Rightarrow> bool" where
  "is_positive (Fin r) = (min_subnormal \<le> r)"
| "is_positive PInf = True"
| "is_positive NInf = False"
| "is_positive NaN = False"

fun positive_value :: "jsval \<Rightarrow> bool" where
  "positive_value (Num x) = is_positive x"
| "positive_value Str = False"

text \<open>
  A plain key: a property name that the empty object does not inherit and that is not an
  array index, so that reading it before it is written gives \<^verbatim>\<open>undefined\<close> and
  \<^verbatim>\<open>Object.keys\<close> lists it in the order of creation. Every category of \<^verbatim>\<open>CATEGORIES\<close> is
  one.
\<close>

definition plain_key :: "string \<Rightarrow> bool" where
  "plain_key c =
     (\<not> is_array_index c \<and> c \<noteq> ''__proto__'' \<and> c \<notin> set Object_prototype_functions)"

text \<open>
  The sum of the amounts of the expenses of one category, in exact arithmetic, and the
  grouping in exact arithmetic, to compare the doubles with.
\<close>

definition category_sum :: "transaction list \<Rightarrow> string \<Rightarrow> real" where
  "category_sum es c = sum_list (map (\<lambda>t. finite_value (amount t)) (filter (\<lambda>t. category t = c) es))"

definition exact_current :: "(string \<times> real) list \<Rightarrow> string \<Rightarrow> real" where
  "exact_current g c = (case map_of g c of None \<Rightarrow> 0 | Some v \<Rightarrow> v)"

definition exact_add :: "(string \<times> real) list \<Rightarrow> transaction \<Rightarrow> (string \<times> real) list" where
  "exact_add g t = obj_set g (category t) (exact_current g (category t) + finite_value (amount t))"

definition lift_exact :: "(string \<times> real) list \<Rightarrow> (string \<times> jsval) list" where
  "lift_exact g = map (\<lambda>p. (fst p, Num (Fin (snd p)))) g"

section \<open>The scenarios of the specification, and further inputs\<close>

text \<open>The two transactions of the first scenario, and its savings goal.\<close>

definition gaji :: transaction where
  "gaji = \<lparr>id_txn = ''m1a2b3c4d'', type_txn = ''income'', amount = Fin 5000000,
           category = ''Gaji'', date = ''2024-01-01'', desc = []\<rparr>"

definition makanan :: transaction where
  "makanan = \<lparr>id_txn = ''m1a2b3c5e'', type_txn = ''expense'', amount = Fin 2000000,
              category = ''Makanan'', date = ''2024-01-02'', desc = []\<rparr>"

definition laptop :: savings_goal where
  "laptop = \<lparr>name = ''Laptop'', target = Fin 10000000\<rparr>"

definition empty_state :: app_state where
  "empty_state = \<lparr>transactions = [], savingsGoal = None,
                   localStorage = \<lparr>sft_transactions = None, sft_theme = None, sft_goal = None\<rparr>\<rparr>"

text \<open>
  An income above the target of the goal, a goal that is already set, the single
  expense of the second scenario, an expense of amount zero and one in a second category.
\<close>

definition bonus :: transaction where
  "bonus = \<lparr>id_txn = ''m1a2b3c7g'', type_txn = ''income'', amount = Fin 20000000,
            category = ''Bonus'', date = ''2024-01-04'', desc = []\<rparr>"

definition meja :: savings_goal where
  "meja = \<lparr>name = ''Meja'', target = Fin 750000\<rparr>"

definition jajan :: transaction where
  "jajan = \<lparr>id_txn = ''m1a2b3c6f'', type_txn = ''expense'', amount = Fin 100000,
            category = ''Makanan'', date = ''2024-01-03'', desc = []\<rparr>"

definition air :: transaction where
  "air = \<lparr>id_txn = ''m1a2b3c8h'', type_txn = ''expense'', amount = Fin 0,
          category = ''Minuman'', date = ''2024-01-05'', desc = []\<rparr>"

definition bensin :: transaction where
  "bensin = \<lparr>id_txn = ''m1a2b3c9i'', type_txn = ''expense'', amount = Fin 50000,
             category = ''Bensin'', date = ''2024-01-06'', desc = []\<rparr>"

text \<open>
  Two doubles at the edges of the arithmetic: \<open>2 ^ 1023\<close>, whose double is infinite, and
  \<open>2 ^ 53\<close>, above which not every integer is a double. A transaction of a given id and
  type with the first as its amount, and an expense of a given id, category and amount.
\<close>

definition huge :: real where
  "huge = 2 ^ 1023"

definition two53 :: real where
  "two53 = 2 ^ 53"

definition raksasa :: "string \<Rightarrow> string \<Rightarrow> transaction" where
  "raksasa i ty = \<lparr>id_txn = i, type_txn = ty, amount = Fin huge,
                   category = ''Lainnya'', date = ''2024-03-01'', desc = []\<rparr>"

definition belanja :: "string \<Rightarrow> string \<Rightarrow> real \<Rightarrow> transaction" where
  "belanja i c r = \<lparr>id_txn = i, type_txn = ''expense'', amount = Fin r,
                    category = c, date = ''2024-02-01'', desc = []\<rparr>"

definition campur :: "transaction list" where
  "campur = [belanja ''n1'' ''2'' two53, belanja ''n2'' ''1'' 1, belanja ''n3'' ''1'' 1, air]"

text \<open>A transaction whose amount field was left empty: \<^verbatim>\<open>parseFloat('')\<close> is NaN.\<close>

definition kosong :: transaction where
  "kosong = \<lparr>id_txn = ''m1a2b3d0j'', type_txn = ''expense'', amount = NaN,
             category = ''Makanan'', date = ''2024-01-07'', desc = []\<rparr>"

section \<open>Properties\<close>

subsection \<open>Rounding to a double\<close>

text \<open>
  Facts about \<open>to_double\<close>: a number on the grid of its binade is kept, so every integer
  up to \<open>2 ^ 53\<close> is a double and whole numbers add without rounding as long as the sum
  stays in that range; \<open>2 ^ 1023 + 2 ^ 1023\<close> overflows; \<open>2 ^ 53 + 1\<close> is a tie and rounds
  to \<open>2 ^ 53\<close>.
\<close>

lemma overflow_limit_pos: "0 < overflow_limit"
  by (simp add: overflow_limit_def)

lemma min_subnormal_pos: "0 < min_subnormal"
  unfolding min_subnormal_def by (rule zero_less_power_int) simp

lemma round_even_of_int: "round_even (of_int m) = m"
  by (simp add: round_even_def)

lemma round_even_nonneg: "0 \<le> q \<Longrightarrow> 0 \<le> round_even q"
  by (simp add: round_even_def Let_def)

lemma round_even_ge_1: "1 \<le> q \<Longrightarrow> 1 \<le> round_even q"
proof -
  assume "1 \<le> q"
  then have "1 \<le> \<lfloor>q\<rfloor>" by simp
  then show ?thesis by (simp add: round_even_def Let_def)
qed

lemma powr_2_int: "2 powr real_of_int k = 2 powi k"
  by (rule powr_real_of_int') simp_all

lemma floor_log2_bounds:
  assumes "0 < x"
  shows "2 powi \<lfloor>log 2 x\<rfloor> \<le> x" and "x < 2 powi (\<lfloor>log 2 x\<rfloor> + 1)"
proof -
  have "2 powr real_of_int \<lfloor>log 2 x\<rfloor> \<le> x \<and> x < 2 powr real_of_int (\<lfloor>log 2 x\<rfloor> + 1)"
    using floor_log_eq_powr_iff [of x 2 "\<lfloor>log 2 x\<rfloor>"] assms by simp
  then show "2 powi \<lfloor>log 2 x\<rfloor> \<le> x" and "x < 2 powi (\<lfloor>log 2 x\<rfloor> + 1)"
    by (simp_all only: powr_2_int)
qed

lemma floor_log2_eq:
  assumes "0 < x" and "2 powi k \<le> x" and "x < 2 powi (k + 1)"
  shows "\<lfloor>log 2 x\<rfloor> = k"
proof -
  have "2 powr real_of_int k \<le> x \<and> x < 2 powr real_of_int (k + 1)"
    using assms by (simp only: powr_2_int)
  then show ?thesis
    using floor_log_eq_powr_iff [of x 2 k] assms(1) by simp
qed

lemma ulp_exponent_eq:
  assumes "2 powi k \<le> \<bar>x\<bar>" and "\<bar>x\<bar> < 2 powi (k + 1)"
  shows "ulp_exponent x = max (k - 52) (- 1074)"
proof -
  have "0 < (2::real) powi k" by (rule zero_less_power_int) simp
  with assms have "0 < \<bar>x\<bar>" by linarith
  then have "\<lfloor>log 2 \<bar>x\<bar>\<rfloor> = k" using assms by (rule floor_log2_eq)
  then show ?thesis by (simp add: ulp_exponent_def)
qed

lemma to_double_not_NaN: "to_double x \<noteq> NaN"
  by (simp add: to_double_def Let_def)

lemma to_double_on_grid:
  assumes "x = of_int m * 2 powi ulp_exponent x" and "\<bar>x\<bar> < overflow_limit"
  shows "to_double x = Fin x"
proof (cases "x = 0")
  case True
  then show ?thesis by (simp add: to_double_def)
next
  case False
  let ?e = "ulp_exponent x"
  have pos: "0 < (2::real) powi ?e" by (rule zero_less_power_int) simp
  then have "x / 2 powi ?e = of_int m"
    using assms(1) by (metis nonzero_mult_div_cancel_right less_numeral_extra(3))
  then have "of_int (round_even (x / 2 powi ?e)) * 2 powi ?e = x"
    using assms(1) by (simp add: round_even_of_int)
  with False assms(2) show ?thesis
    by (simp add: to_double_def Let_def abs_less_iff not_le)
qed

lemma to_double_nonneg:
  assumes "0 \<le> x"
  shows "to_double x = PInf \<or> (\<exists>y. 0 \<le> y \<and> to_double x = Fin y)"
proof (cases "x = 0")
  case True
  then show ?thesis by (simp add: to_double_def)
next
  case False
  let ?e = "ulp_exponent x"
  let ?y = "of_int (round_even (x / 2 powi ?e)) * 2 powi ?e :: real"
  have pos: "0 < (2::real) powi ?e" by (rule zero_less_power_int) simp
  with assms have "0 \<le> x / 2 powi ?e" by simp
  then have "0 \<le> round_even (x / 2 powi ?e)" by (rule round_even_nonneg)
  with pos have "0 \<le> ?y" by simp
  then have "\<not> ?y \<le> - overflow_limit" using overflow_limit_pos by linarith
  with \<open>0 \<le> ?y\<close> show ?thesis
    using False by (auto simp add: to_double_def Let_def)
qed

lemma to_double_positive:
  assumes "min_subnormal \<le> x"
  shows "to_double x = PInf \<or> (\<exists>y. min_subnormal \<le> y \<and> to_double x = Fin y)"
proof -
  have x: "0 < x" using assms min_subnormal_pos by linarith
  let ?k = "\<lfloor>log 2 x\<rfloor>"
  let ?e = "ulp_exponent x"
  let ?y = "of_int (round_even (x / 2 powi ?e)) * 2 powi ?e :: real"
  have e: "?e = max (?k - 52) (- 1074)" using x by (simp add: ulp_exponent_def)
  have pos: "0 < (2::real) powi ?e" by (rule zero_less_power_int) simp
  have "2 powi ?e \<le> x"
  proof (cases "?k - 52 \<le> - 1074")
    case True
    with e have "?e = - 1074" by simp
    with assms show ?thesis by (simp only: min_subnormal_def)
  next
    case False
    with e have "?e \<le> ?k" by simp
    then have "(2::real) powi ?e \<le> 2 powi ?k" by (rule power_int_increasing) simp
    also have "\<dots> \<le> x" using x by (rule floor_log2_bounds)
    finally show ?thesis .
  qed
  with pos have "1 \<le> x / 2 powi ?e" by (simp add: le_divide_eq)
  then have "1 \<le> round_even (x / 2 powi ?e)" by (rule round_even_ge_1)
  then have "1 \<le> (of_int (round_even (x / 2 powi ?e)) :: real)" by simp
  then have "1 * 2 powi ?e \<le> ?y" using pos by (intro mult_right_mono) simp_all
  moreover have "- 1074 \<le> ?e" using e by simp
  then have "(2::real) powi (- 1074) \<le> 2 powi ?e" by (rule power_int_increasing) simp
  ultimately have y: "min_subnormal \<le> ?y" by (simp only: min_subnormal_def mult_1)
  then have "0 < ?y" using min_subnormal_pos by linarith
  then have "\<not> ?y \<le> - overflow_limit" using overflow_limit_pos by linarith
  with x y show ?thesis
    by (auto simp add: to_double_def Let_def)
qed

lemma to_double_int:
  assumes "\<bar>n\<bar> \<le> 2 ^ 53"
  shows "to_double (of_int n) = Fin (of_int n)"
proof (cases "n = 0")
  case True
  then show ?thesis by (simp add: to_double_def)
next
  case False
  let ?x = "of_int n :: real"
  define k where "k = \<lfloor>log 2 \<bar>?x\<bar>\<rfloor>"
  have x1: "1 \<le> \<bar>?x\<bar>" using False by (simp flip: of_int_abs)
  have x53: "\<bar>?x\<bar> \<le> 2 powi 53"
  proof -
    have "real_of_int \<bar>n\<bar> \<le> real_of_int (2 ^ 53)" using assms by (simp only: of_int_le_iff)
    then show ?thesis by simp
  qed
  have lo: "2 powi k \<le> \<bar>?x\<bar>" and hi: "\<bar>?x\<bar> < 2 powi (k + 1)"
    unfolding k_def using x1 floor_log2_bounds [of "\<bar>?x\<bar>"] by simp_all
  have k0: "0 \<le> k"
  proof (rule ccontr)
    assume "\<not> 0 \<le> k"
    then have "k + 1 \<le> 0" by simp
    then have "(2::real) powi (k + 1) \<le> 2 powi 0" by (rule power_int_increasing) simp
    with hi x1 show False by simp
  qed
  have k53: "k \<le> 53"
  proof (rule ccontr)
    assume "\<not> k \<le> 53"
    then have "53 + 1 \<le> k" by simp
    then have "(2::real) powi (53 + 1) \<le> 2 powi k" by (rule power_int_increasing) simp
    moreover have "(2::real) powi 53 < 2 powi (53 + 1)"
      by (rule power_int_strict_increasing) simp_all
    ultimately show False using lo x53 by linarith
  qed
  have e: "ulp_exponent ?x = k - 52" using k0 by (simp add: ulp_exponent_def k_def)
  have "\<exists>m. ?x = of_int m * 2 powi (k - 52)"
  proof (cases "k \<le> 52")
    case True
    define j where "j = nat (52 - k)"
    have "k - 52 = - int j" using True by (simp add: j_def)
    then have "(2::real) powi (k - 52) = inverse (2 ^ j)"
      by (simp add: power_int_minus)
    then have "?x = of_int (n * 2 ^ j) * 2 powi (k - 52)" by simp
    then show ?thesis by blast
  next
    case False
    with k53 have k: "k = 53" by simp
    with lo x53 have "\<bar>?x\<bar> = 2 powi 53" by simp
    then have "\<bar>?x\<bar> = real_of_int (2 ^ 53)" by simp
    then have "\<bar>n\<bar> = 2 ^ 53" by (simp only: of_int_eq_iff flip: of_int_abs)
    then have "even n" by (metis even_abs_add_iff even_add even_numeral even_power zero_less_numeral)
    then obtain m where "n = 2 * m" by (rule evenE)
    then have "?x = of_int m * 2 powi (k - 52)" using k by simp
    then show ?thesis by blast
  qed
  then obtain m where "?x = of_int m * 2 powi ulp_exponent ?x" using e by auto
  moreover have "(2::real) powi 53 < 2 ^ 1024" by simp
  then have "\<bar>?x\<bar> < overflow_limit" using x53 by (simp only: overflow_limit_def)
  ultimately show ?thesis by (rule to_double_on_grid)
qed

lemma to_double_eval:
  assumes "2 powi k \<le> \<bar>x\<bar>" and "\<bar>x\<bar> < 2 powi (k + 1)"
    and "e = max (k - 52) (- 1074)"
    and "of_int (round_even (x / 2 powi e)) * 2 powi e = y"
  shows "to_double x =
           (if overflow_limit \<le> y then PInf else if y \<le> - overflow_limit then NInf else Fin y)"
proof -
  have "0 < (2::real) powi k" by (rule zero_less_power_int) simp
  with assms(1) have "0 < \<bar>x\<bar>" by linarith
  then have "x \<noteq> 0" by simp
  moreover have "ulp_exponent x = e" using assms(1-3) by (simp only: ulp_exponent_eq)
  ultimately show ?thesis using assms(4) by (simp add: to_double_def Let_def)
qed

lemma to_double_0: "to_double 0 = Fin 0"
  by (simp add: to_double_def)

lemma to_double_whole:
  assumes "0 \<le> r" and "of_int \<lfloor>r\<rfloor> = r" and "r \<le> 2 ^ 53"
  shows "to_double r = Fin r"
proof -
  have "real_of_int \<lfloor>r\<rfloor> \<le> real_of_int (2 ^ 53)" using assms by simp
  then have "\<lfloor>r\<rfloor> \<le> 2 ^ 53" by (simp only: of_int_le_iff)
  moreover have "0 \<le> \<lfloor>r\<rfloor>" using assms(1) by simp
  ultimately have "\<bar>\<lfloor>r\<rfloor>\<bar> \<le> 2 ^ 53" by simp
  then have "to_double (of_int \<lfloor>r\<rfloor>) = Fin (of_int \<lfloor>r\<rfloor>)" by (rule to_double_int)
  then show ?thesis by (simp only: assms(2))
qed

lemma to_double_numeral:
  assumes "numeral n \<le> (9007199254740992::real)"
  shows "to_double (numeral n) = Fin (numeral n)"
  using assms by (intro to_double_whole) simp_all

lemma to_double_1: "to_double 1 = Fin 1"
  by (rule to_double_whole) simp_all

lemma to_double_difference:
  assumes "0 \<le> a" and "of_int \<lfloor>a\<rfloor> = a" and "a \<le> 2 ^ 53"
    and "0 \<le> b" and "of_int \<lfloor>b\<rfloor> = b" and "b \<le> 2 ^ 53"
  shows "to_double (a - b) = Fin (a - b)"
proof -
  have d: "a - b = of_int (\<lfloor>a\<rfloor> - \<lfloor>b\<rfloor>)" by (simp only: of_int_diff assms(2,5))
  have "real_of_int \<lfloor>a\<rfloor> \<le> real_of_int (2 ^ 53)" "real_of_int \<lfloor>b\<rfloor> \<le> real_of_int (2 ^ 53)"
    using assms by simp_all
  then have "\<lfloor>a\<rfloor> \<le> 2 ^ 53" "\<lfloor>b\<rfloor> \<le> 2 ^ 53" by (simp_all only: of_int_le_iff)
  moreover have "0 \<le> \<lfloor>a\<rfloor>" "0 \<le> \<lfloor>b\<rfloor>" using assms(1,4) by simp_all
  ultimately have "\<bar>\<lfloor>a\<rfloor> - \<lfloor>b\<rfloor>\<bar> \<le> 2 ^ 53" by linarith
  then have "to_double (of_int (\<lfloor>a\<rfloor> - \<lfloor>b\<rfloor>)) = Fin (of_int (\<lfloor>a\<rfloor> - \<lfloor>b\<rfloor>))"
    by (rule to_double_int)
  then show ?thesis by (simp only: d)
qed

lemma is_whole_Fin: "is_whole a \<Longrightarrow> a = Fin (finite_value a)"
  by (cases a) simp_all

lemma whole_nonneg: "is_whole a \<Longrightarrow> 0 \<le> finite_value a"
  by (cases a) simp_all

lemma js_add_whole:
  assumes "is_whole a" and "is_whole b" and "finite_value a + finite_value b \<le> 2 ^ 53"
  shows "js_add a b = Fin (finite_value a + finite_value b)"
    and "is_whole (Fin (finite_value a + finite_value b))"
proof -
  obtain x y where a: "a = Fin x" and b: "b = Fin y"
    using assms(1,2) by (metis is_whole_Fin)
  have x: "0 \<le> x" "of_int \<lfloor>x\<rfloor> = x" and y: "0 \<le> y" "of_int \<lfloor>y\<rfloor> = y"
    using assms(1,2) a b by simp_all
  have "x + y = of_int (\<lfloor>x\<rfloor> + \<lfloor>y\<rfloor>)" by (simp only: of_int_add x y)
  then have fl: "of_int \<lfloor>x + y\<rfloor> = x + y" by (metis floor_of_int)
  show "is_whole (Fin (finite_value a + finite_value b))"
    using a b x y fl by simp
  have "to_double (x + y) = Fin (x + y)"
    using x y fl assms(3) a b by (intro to_double_whole) simp_all
  then show "js_add a b = Fin (finite_value a + finite_value b)"
    using a b by simp
qed

lemma sum_whole_nonneg:
  "list_all is_whole xs \<Longrightarrow> 0 \<le> sum_list (map finite_value xs)"
  by (induction xs) (simp_all add: whole_nonneg)

lemma foldl_js_add_whole:
  assumes "list_all is_whole xs" and "is_whole a"
    and "finite_value a + sum_list (map finite_value xs) \<le> 2 ^ 53"
  shows "foldl js_add a xs = Fin (finite_value a + sum_list (map finite_value xs))
       \<and> is_whole (Fin (finite_value a + sum_list (map finite_value xs)))"
  using assms
proof (induction xs arbitrary: a)
  case Nil
  then show ?case by (simp add: is_whole_Fin [symmetric])
next
  case (Cons x xs)
  have rest: "0 \<le> sum_list (map finite_value xs)"
    using Cons.prems(1) by (simp add: sum_whole_nonneg)
  have step: "finite_value a + finite_value x \<le> 2 ^ 53"
    using Cons.prems(3) rest by simp
  have x: "is_whole x" using Cons.prems(1) by simp
  note s = js_add_whole [OF Cons.prems(2) x step]
  have "foldl js_add (Fin (finite_value a + finite_value x)) xs =
        Fin (finite_value (Fin (finite_value a + finite_value x)) + sum_list (map finite_value xs))
      \<and> is_whole (Fin (finite_value (Fin (finite_value a + finite_value x))
                          + sum_list (map finite_value xs)))"
    using Cons.prems s(2) by (intro Cons.IH) (simp_all add: add.assoc)
  then show ?case using s(1) by (simp add: add.assoc)
qed

lemma huge_exact: "to_double huge = Fin huge"
proof -
  have "to_double huge =
      (if overflow_limit \<le> huge then PInf else if huge \<le> - overflow_limit then NInf else Fin huge)"
    unfolding huge_def
    by (rule to_double_eval [where k = 1023 and e = 971]) (simp_all add: round_even_def)
  then show ?thesis by (simp add: overflow_limit_def huge_def)
qed

lemma huge_overflow: "to_double (huge + huge) = PInf"
proof -
  have "to_double (huge + huge) =
      (if overflow_limit \<le> 2 ^ 1024 then PInf
       else if 2 ^ 1024 \<le> - overflow_limit then NInf else Fin (2 ^ 1024))"
    unfolding huge_def
    by (rule to_double_eval [where k = 1024 and e = 972]) (simp_all add: round_even_def)
  then show ?thesis by (simp add: overflow_limit_def)
qed

lemma two53_exact: "to_double two53 = Fin two53"
  unfolding two53_def by (rule to_double_whole) simp_all

lemma two53_tie: "to_double (two53 + 1) = Fin two53"
proof -
  have "to_double (two53 + 1) =
      (if overflow_limit \<le> two53 then PInf else if two53 \<le> - overflow_limit then NInf else Fin two53)"
    unfolding two53_def
    by (rule to_double_eval [where k = 53 and e = 1]) (simp_all add: round_even_def)
  then show ?thesis by (simp add: overflow_limit_def two53_def)
qed

lemma two53_plus_2: "to_double (2 + two53) = Fin (2 + two53)"
proof -
  have "to_double (2 + two53) =
      (if overflow_limit \<le> 2 + two53 then PInf
       else if 2 + two53 \<le> - overflow_limit then NInf else Fin (2 + two53))"
    unfolding two53_def
    by (rule to_double_eval [where k = 53 and e = 1]) (simp_all add: round_even_def)
  then show ?thesis by (simp add: overflow_limit_def two53_def)
qed

lemma three_tenths: "to_double (3000000 / 10000000) = Fin (5404319552844595 / 2 ^ 54)"
proof -
  have "to_double (3000000 / 10000000) =
      (if overflow_limit \<le> 5404319552844595 / 2 ^ 54 then PInf
       else if 5404319552844595 / 2 ^ 54 \<le> - overflow_limit then NInf
       else Fin (5404319552844595 / 2 ^ 54))"
    by (rule to_double_eval [where k = "- 2" and e = "- 54"])
       (simp_all add: round_even_def power_int_minus)
  then show ?thesis by (simp add: overflow_limit_def)
qed

lemma thirty: "to_double (5404319552844595 / 2 ^ 54 * 100) = Fin 30"
proof -
  have "to_double (5404319552844595 / 2 ^ 54 * 100) =
      (if overflow_limit \<le> 30 then PInf else if 30 \<le> - overflow_limit then NInf else Fin 30)"
    by (rule to_double_eval [where k = 4 and e = "- 48"])
       (simp_all add: round_even_def power_int_minus)
  then show ?thesis by (simp add: overflow_limit_def)
qed

subsection \<open>Totals\<close>

lemma huge_twice_overflow: "to_double (2 * huge) = PInf"
  by (simp only: mult_2 huge_overflow)

lemma foldl_amount:
  "foldl (\<lambda>s t. js_add s (amount t)) a xs = foldl js_add a (map amount xs)"
  by (induction xs arbitrary: a) simp_all

lemma income_calcTotals:
  "income (calcTotals txs) =
     foldl js_add (Fin 0) (map amount (filter (\<lambda>t. type_txn t = ''income'') txs))"
  by (simp add: calcTotals_def Let_def foldl_amount)

lemma expense_calcTotals:
  "expense (calcTotals txs) =
     foldl js_add (Fin 0) (map amount (filter (\<lambda>t. type_txn t = ''expense'') txs))"
  by (simp add: calcTotals_def Let_def foldl_amount)

lemma balance_calcTotals:
  "balance (calcTotals txs) = js_sub (income (calcTotals txs)) (expense (calcTotals txs))"
  by (simp add: calcTotals_def Let_def)

lemma js_eq_self: "js_eq x x \<longleftrightarrow> x \<noteq> NaN"
  by (cases x) simp_all

lemma sum_filter_le:
  "list_all (\<lambda>t. is_whole (amount t)) txs \<Longrightarrow>
   sum_list (map (\<lambda>t. finite_value (amount t)) (filter P txs))
     \<le> sum_list (map (\<lambda>t. finite_value (amount t)) txs)"
proof (induction txs)
  case Nil
  then show ?case by simp
next
  case (Cons t txs)
  then have "0 \<le> finite_value (amount t)" by (simp add: whole_nonneg)
  with Cons show ?case by simp
qed

lemma whole_filter_sum:
  assumes "whole_amounts txs"
  shows "foldl js_add (Fin 0) (map amount (filter P txs)) =
           Fin (sum_list (map (\<lambda>t. finite_value (amount t)) (filter P txs)))"
    and "is_whole (Fin (sum_list (map (\<lambda>t. finite_value (amount t)) (filter P txs))))"
    and "sum_list (map (\<lambda>t. finite_value (amount t)) (filter P txs)) \<le> 2 ^ 53"
proof -
  let ?xs = "map amount (filter P txs)"
  have all: "list_all (\<lambda>t. is_whole (amount t)) txs"
    and bound: "sum_list (map (\<lambda>t. finite_value (amount t)) txs) \<le> 2 ^ 53"
    using assms by (simp_all add: whole_amounts_def)
  have w: "list_all is_whole ?xs"
    using all by (simp add: list_all_iff)
  have m: "map finite_value ?xs = map (\<lambda>t. finite_value (amount t)) (filter P txs)"
    by (simp add: comp_def)
  show b: "sum_list (map (\<lambda>t. finite_value (amount t)) (filter P txs)) \<le> 2 ^ 53"
    using sum_filter_le [OF all, of P] bound by linarith
  then have "foldl js_add (Fin 0) ?xs = Fin (finite_value (Fin 0) + sum_list (map finite_value ?xs))
      \<and> is_whole (Fin (finite_value (Fin 0) + sum_list (map finite_value ?xs)))"
    using w by (intro foldl_js_add_whole) (simp_all add: comp_def)
  then show "foldl js_add (Fin 0) ?xs =
           Fin (sum_list (map (\<lambda>t. finite_value (amount t)) (filter P txs)))"
    and "is_whole (Fin (sum_list (map (\<lambda>t. finite_value (amount t)) (filter P txs))))"
    by (simp_all add: comp_def)
qed

lemma totals_whole:
  assumes "whole_amounts txs"
  shows "income (calcTotals txs) =
           Fin (sum_list (map (\<lambda>t. finite_value (amount t)) (filter (\<lambda>t. type_txn t = ''income'') txs)))"
    and "expense (calcTotals txs) =
           Fin (sum_list (map (\<lambda>t. finite_value (amount t)) (filter (\<lambda>t. type_txn t = ''expense'') txs)))"
    and "balance (calcTotals txs) =
           Fin (sum_list (map (\<lambda>t. finite_value (amount t)) (filter (\<lambda>t. type_txn t = ''income'') txs))
                - sum_list (map (\<lambda>t. finite_value (amount t)) (filter (\<lambda>t. type_txn t = ''expense'') txs)))"
proof -
  let ?i = "sum_list (map (\<lambda>t. finite_value (amount t)) (filter (\<lambda>t. type_txn t = ''income'') txs))"
  let ?e = "sum_list (map (\<lambda>t. finite_value (amount t)) (filter (\<lambda>t. type_txn t = ''expense'') txs))"
  note i = whole_filter_sum [OF assms, of "\<lambda>t. type_txn t = ''income''"]
  note e = whole_filter_sum [OF assms, of "\<lambda>t. type_txn t = ''expense''"]
  show inc: "income (calcTotals txs) = Fin ?i" by (simp only: income_calcTotals i(1))
  show exp: "expense (calcTotals txs) = Fin ?e" by (simp only: expense_calcTotals e(1))
  have "to_double (?i - ?e) = Fin (?i - ?e)"
    using i(2,3) e(2,3) by (intro to_double_difference) simp_all
  then show "balance (calcTotals txs) = Fin (?i - ?e)"
    by (simp add: balance_calcTotals inc exp)
qed

text \<open>
  C1, as the claim states it, fails in the arithmetic of the program, which is that of
  doubles. Two incomes and two expenses of \<open>2 ^ 1023\<close> each make both sums infinite and
  the balance \<^verbatim>\<open>Infinity - Infinity\<close>, which is NaN; an expense whose amount field was
  left empty has the amount NaN, and so have the expense total and the balance. NaN is
  equal to nothing, itself included, so \<^verbatim>\<open>balance == income - expense\<close> is false in both
  cases.
\<close>

theorem calcTotals_overflow_counterexample:
  "calcTotals [raksasa ''r1'' ''income'', raksasa ''r2'' ''income'',
               raksasa ''r3'' ''expense'', raksasa ''r4'' ''expense'']
     = \<lparr>income = PInf, expense = PInf, balance = NaN\<rparr>
   \<and> \<not> js_eq NaN (js_sub PInf PInf)
   \<and> calcTotals [kosong] = \<lparr>income = Fin 0, expense = NaN, balance = NaN\<rparr>
   \<and> \<not> js_eq NaN (js_sub (Fin 0) NaN)"
  by (simp add: calcTotals_def raksasa_def kosong_def huge_exact huge_overflow huge_twice_overflow)

text \<open>
  C1, amended. After every sequence of additions and deletions the totals are those of
  the current list, computed from scratch: income and expense are the amounts of the
  transactions of type income and of type expense, added in doubles from 0 in the order
  of the list, and the balance is income - expense in doubles. The comparison
  \<^verbatim>\<open>balance == income - expense\<close> holds exactly when the balance is not NaN. When every
  amount is a whole number from 0 on and the amounts sum to at most \<open>2 ^ 53\<close>, income and
  expense are the exact sums and the balance is their exact difference.
\<close>

theorem calcTotals_balance_exact:
  "(let txs = transactions (run es st); tot = calcTotals txs;
        incs = filter (\<lambda>t. type_txn t = ''income'') txs;
        exps = filter (\<lambda>t. type_txn t = ''expense'') txs
    in income tot = foldl js_add (Fin 0) (map amount incs)
     \<and> expense tot = foldl js_add (Fin 0) (map amount exps)
     \<and> balance tot = js_sub (income tot) (expense tot)
     \<and> (js_eq (balance tot) (js_sub (income tot) (expense tot)) \<longleftrightarrow> balance tot \<noteq> NaN)
     \<and> (whole_amounts txs \<longrightarrow>
          income tot = Fin (sum_list (map (\<lambda>t. finite_value (amount t)) incs))
        \<and> expense tot = Fin (sum_list (map (\<lambda>t. finite_value (amount t)) exps))
        \<and> balance tot = Fin (sum_list (map (\<lambda>t. finite_value (amount t)) incs)
                             - sum_list (map (\<lambda>t. finite_value (amount t)) exps))))"
proof -
  let ?txs = "transactions (run es st)"
  have "js_eq (balance (calcTotals ?txs)) (js_sub (income (calcTotals ?txs)) (expense (calcTotals ?txs)))
        \<longleftrightarrow> balance (calcTotals ?txs) \<noteq> NaN"
    by (simp only: balance_calcTotals [symmetric] js_eq_self)
  then show ?thesis
    unfolding Let_def
    using income_calcTotals [of ?txs] expense_calcTotals [of ?txs] balance_calcTotals [of ?txs]
      totals_whole [of ?txs]
    by blast
qed

theorem calcTotals_balance_exact_witness:
  "calcTotals (transactions (run [Delete (id_txn jajan)]
       (empty_state\<lparr>transactions := [gaji, jajan, makanan]\<rparr>)))
     = \<lparr>income = Fin 5000000, expense = Fin 2000000, balance = Fin 3000000\<rparr>"
  using calcTotals_balance_exact
    [of "[Delete (id_txn jajan)]" "empty_state\<lparr>transactions := [gaji, jajan, makanan]\<rparr>"]
  by (simp add: deleteTransaction_def persist_def calcTotals_def gaji_def jajan_def makanan_def
      to_double_numeral)

subsection \<open>Summary\<close>

lemma js_sub_NaN_iff:
  "js_sub a b = NaN \<longleftrightarrow>
     a = NaN \<or> b = NaN \<or> (a = PInf \<and> b = PInf) \<or> (a = NInf \<and> b = NInf)"
  by (cases a; cases b) (simp_all add: to_double_not_NaN)

lemma js_div_NaN_positive:
  "0 < i \<Longrightarrow> js_div b (Fin i) = NaN \<longleftrightarrow> b = NaN"
  by (cases b) (simp_all add: to_double_not_NaN)

lemma js_mul_100_NaN: "js_mul x (Fin 100) = NaN \<longleftrightarrow> x = NaN"
  by (cases x) (simp_all add: to_double_not_NaN)

lemma clamp_NaN: "Math_max (Fin 0) (Math_min (Fin 100) x) = NaN \<longleftrightarrow> x = NaN"
  by (cases x) simp_all

lemma clamp_range:
  "x \<noteq> NaN \<Longrightarrow> \<exists>p. Math_max (Fin 0) (Math_min (Fin 100) x) = Fin p \<and> 0 \<le> p \<and> p \<le> 100"
  by (cases x) auto

lemma js_gt_0_cases: "js_gt x (Fin 0) \<longleftrightarrow> x = PInf \<or> (\<exists>r. x = Fin r \<and> 0 < r)"
  by (cases x) (simp_all add: js_gt_def)

lemma width_renderSummary:
  "balanceBar_width (renderSummary txs) =
     (if js_gt (income (calcTotals txs)) (Fin 0)
      then Math_max (Fin 0) (Math_min (Fin 100)
             (js_mul (js_div (balance (calcTotals txs)) (income (calcTotals txs))) (Fin 100)))
      else Fin 0)"
  by (simp add: renderSummary_def Let_def)

lemma width_NaN_iff:
  "balanceBar_width (renderSummary txs) = NaN \<longleftrightarrow>
     income (calcTotals txs) = PInf
     \<or> (js_gt (income (calcTotals txs)) (Fin 0) \<and> expense (calcTotals txs) = NaN)"
proof (cases "js_gt (income (calcTotals txs)) (Fin 0)")
  case False
  then have "income (calcTotals txs) \<noteq> PInf" by (auto simp add: js_gt_def)
  with False show ?thesis by (simp add: width_renderSummary)
next
  case True
  then consider "income (calcTotals txs) = PInf"
    | r where "income (calcTotals txs) = Fin r" and "0 < r"
    by (auto simp add: js_gt_0_cases)
  then show ?thesis
  proof cases
    case 1
    have "js_div (js_sub PInf (expense (calcTotals txs))) PInf = NaN"
      by (cases "expense (calcTotals txs)") simp_all
    with True 1 show ?thesis
      by (simp add: width_renderSummary clamp_NaN js_mul_100_NaN balance_calcTotals)
  next
    case 2
    then show ?thesis
      using True
      by (simp add: width_renderSummary clamp_NaN js_mul_100_NaN balance_calcTotals
          js_div_NaN_positive js_sub_NaN_iff)
  qed
qed

text \<open>
  C2, as the claim states it, fails where the income overflows: with two incomes of
  \<open>2 ^ 1023\<close> the income and the balance are both infinite, \<^verbatim>\<open>Infinity / Infinity\<close> is NaN,
  \<^verbatim>\<open>Math.min\<close> and \<^verbatim>\<open>Math.max\<close> return NaN, and the width of the balance bar is NaN.
\<close>

theorem renderSummary_overflow_counterexample:
  "balanceBar_width (renderSummary [raksasa ''r1'' ''income'', raksasa ''r2'' ''income'']) = NaN"
  by (simp add: renderSummary_def calcTotals_def Let_def raksasa_def huge_exact huge_overflow
      huge_twice_overflow js_gt_def)

text \<open>
  C2, amended. For every transaction list the width of the balance bar is 0 when the
  income is not above 0 (a zero income, as in a ledger of expenses only, and an income
  that is NaN), and balance / income * 100 clamped by \<^verbatim>\<open>Math.min\<close> and \<^verbatim>\<open>Math.max\<close> to
  [0, 100] when the income is above 0. It is NaN exactly when the income is infinite, or
  the income is above 0 and the expense is NaN; in every other case it is a finite number
  from 0 to 100.
\<close>

theorem balance_percent_range:
  "(let tot = calcTotals txs; w = balanceBar_width (renderSummary txs)
    in (\<not> js_gt (income tot) (Fin 0) \<longrightarrow> w = Fin 0)
     \<and> (js_gt (income tot) (Fin 0) \<longrightarrow>
          w = Math_max (Fin 0) (Math_min (Fin 100)
                (js_mul (js_div (balance tot) (income tot)) (Fin 100))))
     \<and> (w = NaN \<longleftrightarrow> income tot = PInf \<or> (js_gt (income tot) (Fin 0) \<and> expense tot = NaN))
     \<and> (w \<noteq> NaN \<longrightarrow> (\<exists>p. w = Fin p \<and> 0 \<le> p \<and> p \<le> 100)))"
proof -
  let ?w = "balanceBar_width (renderSummary txs)"
  have range: "\<exists>p. ?w = Fin p \<and> 0 \<le> p \<and> p \<le> 100" if "?w \<noteq> NaN"
  proof (cases "js_gt (income (calcTotals txs)) (Fin 0)")
    case False
    then show ?thesis by (simp add: width_renderSummary)
  next
    case True
    with that have "js_mul (js_div (balance (calcTotals txs)) (income (calcTotals txs))) (Fin 100) \<noteq> NaN"
      by (simp add: width_renderSummary clamp_NaN)
    then show ?thesis
      using True by (simp add: width_renderSummary clamp_range)
  qed
  show ?thesis
    unfolding Let_def
    using width_NaN_iff [of txs] range
    by (simp add: width_renderSummary)
qed

theorem balance_percent_range_witness:
  "balanceBar_width (renderSummary [gaji]) = Fin 100
   \<and> balanceBar_width (renderSummary [jajan]) = Fin 0"
  using balance_percent_range [of "[gaji]"] balance_percent_range [of "[jajan]"]
  by (simp add: renderSummary_def calcTotals_def Let_def gaji_def jajan_def js_gt_def
      to_double_numeral to_double_1)

lemma no_income:
  "\<forall>t \<in> set txs. type_txn t = ''expense'' \<Longrightarrow> income (calcTotals txs) = Fin 0"
  by (simp add: income_calcTotals filter_False)

text \<open>
  C4. The alert banner is visible after rendering the summary exactly when the expense
  exceeds the income and the income is above 0, both in the comparison of doubles. A
  ledger of expense transactions only has income zero and does not show the alert.
\<close>

theorem overspend_alert_iff:
  "(alertBanner_visible (renderSummary txs)
      \<longleftrightarrow> js_lt (income (calcTotals txs)) (expense (calcTotals txs))
          \<and> js_lt (Fin 0) (income (calcTotals txs)))
   \<and> ((\<forall>t \<in> set txs. type_txn t = ''expense'') \<longrightarrow> \<not> alertBanner_visible (renderSummary txs))"
proof -
  have iff: "alertBanner_visible (renderSummary txs)
      \<longleftrightarrow> js_lt (income (calcTotals txs)) (expense (calcTotals txs))
          \<and> js_lt (Fin 0) (income (calcTotals txs))"
    by (simp add: renderSummary_def Let_def js_gt_def)
  have "\<not> alertBanner_visible (renderSummary txs)" if "\<forall>t \<in> set txs. type_txn t = ''expense''"
    using no_income [OF that] iff by simp
  with iff show ?thesis by blast
qed

theorem overspend_alert_iff_witness:
  "\<not> alertBanner_visible (renderSummary [jajan])
   \<and> income (calcTotals [jajan]) = Fin 0 \<and> expense (calcTotals [jajan]) = Fin 100000
   \<and> balanceBar_width (renderSummary [jajan]) = Fin 0"
  using overspend_alert_iff [of "[jajan]"]
  by (simp add: jajan_def calcTotals_def renderSummary_def Let_def js_gt_def to_double_numeral)

subsection \<open>Savings goal\<close>

lemma js_lt_0_cases: "js_lt (Fin 0) x \<longleftrightarrow> x = PInf \<or> (\<exists>r. x = Fin r \<and> 0 < r)"
  by (cases x) simp_all

lemma percent_of_finite:
  assumes "0 \<le> s" and "0 < r"
  shows "\<exists>p. Math_min (Fin 100) (js_mul (js_div (Fin s) (Fin r)) (Fin 100)) = Fin p
              \<and> 0 \<le> p \<and> p \<le> 100"
proof -
  have "0 \<le> s / r" using assms by simp
  then consider "to_double (s / r) = PInf" | q where "0 \<le> q" and "to_double (s / r) = Fin q"
    using to_double_nonneg by blast
  then show ?thesis
  proof cases
    case 1
    with assms show ?thesis by simp
  next
    case 2
    then have "0 \<le> q * 100" by simp
    then consider "to_double (q * 100) = PInf" | z where "0 \<le> z" and "to_double (q * 100) = Fin z"
      using to_double_nonneg by blast
    then show ?thesis
    proof cases
      case 1
      with 2 assms show ?thesis by simp
    next
      case 2
      with \<open>to_double (s / r) = Fin q\<close> assms show ?thesis by simp
    qed
  qed
qed

lemma percent_range:
  assumes "js_lt (Fin 0) tg" and "bal \<noteq> NaN" and "\<not> (bal = PInf \<and> tg = PInf)"
  shows "\<exists>p. Math_min (Fin 100) (js_mul (js_div (Math_max (Fin 0) bal) tg) (Fin 100)) = Fin p
              \<and> 0 \<le> p \<and> p \<le> 100"
proof -
  consider "tg = PInf" | r where "tg = Fin r" and "0 < r"
    using assms(1) by (auto simp add: js_lt_0_cases)
  then show ?thesis
  proof cases
    case 1
    with assms(2,3) show ?thesis
      by (cases bal) (simp_all add: to_double_0)
  next
    case 2
    show ?thesis
    proof (cases bal)
      case (Fin b)
      have "0 \<le> max 0 b" by simp
      then show ?thesis
        using percent_of_finite [of "max 0 b" r] 2 Fin by simp
    next
      case PInf
      with 2 show ?thesis by simp
    next
      case NInf
      with 2 show ?thesis using percent_of_finite [of 0 r] by simp
    next
      case NaN
      with assms(2) show ?thesis by simp
    qed
  qed
qed

lemma percent_NaN_iff:
  assumes "js_lt (Fin 0) tg"
  shows "Math_min (Fin 100) (js_mul (js_div (Math_max (Fin 0) bal) tg) (Fin 100)) = NaN
         \<longleftrightarrow> bal = NaN \<or> (bal = PInf \<and> tg = PInf)"
proof (cases "bal = NaN \<or> (bal = PInf \<and> tg = PInf)")
  case True
  then show ?thesis by auto
next
  case False
  then have "bal \<noteq> NaN" and "\<not> (bal = PInf \<and> tg = PInf)" by simp_all
  from percent_range [OF assms this] False show ?thesis by auto
qed

lemma percent_example:
  "Math_min (Fin 100) (js_mul (js_div (Fin 3000000) (Fin 10000000)) (Fin 100)) = Fin 30"
proof -
  have "js_div (Fin 3000000) (Fin 10000000) = to_double (3000000 / 10000000)"
    by (simp only: js_div.simps) simp
  also have "\<dots> = Fin (5404319552844595 / 2 ^ 54)" by (rule three_tenths)
  finally have d: "js_div (Fin 3000000) (Fin 10000000) = Fin (5404319552844595 / 2 ^ 54)" .
  have "js_mul (Fin (5404319552844595 / 2 ^ 54)) (Fin 100) = to_double (5404319552844595 / 2 ^ 54 * 100)"
    by (simp only: js_mul.simps)
  also have "\<dots> = Fin 30" by (rule thirty)
  finally have "js_mul (js_div (Fin 3000000) (Fin 10000000)) (Fin 100) = Fin 30"
    by (simp only: d)
  then show ?thesis by simp
qed

text \<open>
  C5, as the claim states it, fails in two places. Where the balance reaches the target
  the code shows the congratulation and computes no remaining amount: with an income of
  20,000,000 and the target 10,000,000 the note is the congratulation, not a remaining
  amount of -10,000,000. And the percentage is not always in [0, 100]: with two incomes
  and two expenses of \<open>2 ^ 1023\<close> the balance is NaN, and so are the amount saved and the
  percentage.
\<close>

theorem renderGoal_counterexample:
  "renderGoal (Some laptop) [bonus] =
     Some \<lparr>goalLabel = ''Laptop'', goalProgress_saved = Fin 20000000,
           goalProgress_target = Fin 10000000, goalBar_width = Fin 100, goalNote = Reached\<rparr>
   \<and> renderGoal (Some laptop)
        [raksasa ''r1'' ''income'', raksasa ''r2'' ''income'',
         raksasa ''r3'' ''expense'', raksasa ''r4'' ''expense''] =
     Some \<lparr>goalLabel = ''Laptop'', goalProgress_saved = NaN,
           goalProgress_target = Fin 10000000, goalBar_width = NaN,
           goalNote = Remaining NaN NaN\<rparr>"
  by (simp add: renderGoal_def calcTotals_def Let_def laptop_def bonus_def raksasa_def
      js_ge_def to_double_numeral huge_exact huge_overflow huge_twice_overflow)

text \<open>
  C5, amended. For every transaction list and every goal with a target above 0, the goal
  panel shows saved = max(0, balance) and percent = min(100, saved / target * 100), both
  in doubles. The percentage is NaN exactly when the balance is NaN, or the balance and
  the target are both infinite; otherwise it is a finite number from 0 to 100. Where the
  percentage is not at least 100 the note carries remaining = target - saved; from 100
  per cent on the note is the congratulation and no remaining amount is computed. With
  balance 3,000,000 and target 10,000,000: saved 3,000,000, remaining 7,000,000, percent
  30.
\<close>

theorem renderGoal_progress:
  assumes "js_lt (Fin 0) (target g)"
  shows "(let bal = balance (calcTotals txs);
              saved = Math_max (Fin 0) bal;
              pct = Math_min (Fin 100) (js_mul (js_div saved (target g)) (Fin 100))
          in renderGoal (Some g) txs =
               Some \<lparr>goalLabel = name g, goalProgress_saved = saved,
                     goalProgress_target = target g, goalBar_width = pct,
                     goalNote = (if js_ge pct (Fin 100) then Reached
                                 else Remaining (js_sub (target g) saved) pct)\<rparr>
             \<and> (pct = NaN \<longleftrightarrow> bal = NaN \<or> (bal = PInf \<and> target g = PInf))
             \<and> (pct \<noteq> NaN \<longrightarrow> (\<exists>p. pct = Fin p \<and> 0 \<le> p \<and> p \<le> 100))
             \<and> (bal = Fin 3000000 \<and> target g = Fin 10000000
                  \<longrightarrow> saved = Fin 3000000 \<and> pct = Fin 30
                      \<and> js_sub (target g) saved = Fin 7000000))"
proof -
  let ?bal = "balance (calcTotals txs)"
  let ?saved = "Math_max (Fin 0) ?bal"
  let ?pct = "Math_min (Fin 100) (js_mul (js_div ?saved (target g)) (Fin 100))"
  have r: "renderGoal (Some g) txs =
               Some \<lparr>goalLabel = name g, goalProgress_saved = ?saved,
                     goalProgress_target = target g, goalBar_width = ?pct,
                     goalNote = (if js_ge ?pct (Fin 100) then Reached
                                 else Remaining (js_sub (target g) ?saved) ?pct)\<rparr>"
    by (simp add: renderGoal_def Let_def)
  have n: "?pct = NaN \<longleftrightarrow> ?bal = NaN \<or> (?bal = PInf \<and> target g = PInf)"
    using assms by (rule percent_NaN_iff)
  have p: "?pct \<noteq> NaN \<longrightarrow> (\<exists>p. ?pct = Fin p \<and> 0 \<le> p \<and> p \<le> 100)"
    using n percent_range [OF assms, of ?bal] by blast
  have e: "?bal = Fin 3000000 \<and> target g = Fin 10000000
                  \<longrightarrow> ?saved = Fin 3000000 \<and> ?pct = Fin 30
                      \<and> js_sub (target g) ?saved = Fin 7000000"
  proof
    assume h: "?bal = Fin 3000000 \<and> target g = Fin 10000000"
    then have s: "?saved = Fin 3000000" by simp
    have t: "target g = Fin 10000000" using h by simp
    have "?pct = Fin 30" using percent_example by (simp only: s t)
    moreover have "js_sub (target g) ?saved = Fin 7000000"
      using h by (simp add: to_double_numeral)
    ultimately show "?saved = Fin 3000000 \<and> ?pct = Fin 30
                      \<and> js_sub (target g) ?saved = Fin 7000000"
      using s by simp
  qed
  show ?thesis
    unfolding Let_def by (intro conjI r n p e)
qed

theorem renderGoal_progress_witness:
  "renderGoal (Some laptop) [gaji, makanan] =
     Some \<lparr>goalLabel = ''Laptop'', goalProgress_saved = Fin 3000000,
           goalProgress_target = Fin 10000000, goalBar_width = Fin 30,
           goalNote = Remaining (Fin 7000000) (Fin 30)\<rparr>"
proof -
  have pos: "js_lt (Fin 0) (target laptop)" by (simp add: laptop_def)
  have bal: "balance (calcTotals [gaji, makanan]) = Fin 3000000"
    by (simp add: calcTotals_def gaji_def makanan_def to_double_numeral)
  show ?thesis
    using renderGoal_progress [OF pos, of "[gaji, makanan]"] bal
    by (simp add: Let_def laptop_def js_ge_def)
qed

text \<open>
  C7, as the claim states it, fails for the target \<^verbatim>\<open>Infinity\<close>, which \<^verbatim>\<open>parseFloat\<close>
  returns for the text \<^verbatim>\<open>Infinity\<close> and which passes the guard: the goal in memory has the
  target \<^verbatim>\<open>Infinity\<close>, and the goal persisted has the target \<^verbatim>\<open>null\<close>, because
  \<^verbatim>\<open>JSON.stringify\<close> writes \<^verbatim>\<open>null\<close> for a number that is not finite.
\<close>

theorem setGoal_infinity_counterexample:
  "savingsGoal (setGoal ''Laptop'' PInf empty_state) = Some \<lparr>name = ''Laptop'', target = PInf\<rparr>
   \<and> sft_goal (localStorage (setGoal ''Laptop'' PInf empty_state))
       = Some \<lparr>name = ''Laptop'', target = JNull\<rparr>"
  by (simp add: setGoal_def Let_def js_trim_def is_ws_def js_falsy_def stored_goal_of_def
      empty_state_def)

text \<open>
  C7, amended. If the trimmed name is empty, or the parsed target is NaN (the text is not
  numeric) or not above 0, \<^verbatim>\<open>setGoal\<close> does nothing: the goal in memory and the store are
  as before. Otherwise the parsed target is above 0, and the goal in memory becomes the
  trimmed name with the target, whatever goal there was; the goal persisted is the
  trimmed name with the target as JSON writes it: the same number when it is finite,
  \<^verbatim>\<open>null\<close> when it is infinite.
\<close>

theorem setGoal_validation:
  "(js_trim nv = [] \<or> parsed = NaN \<or> js_le parsed (Fin 0) \<longrightarrow> setGoal nv parsed st = st)
   \<and> (js_trim nv \<noteq> [] \<and> js_lt (Fin 0) parsed
      \<longrightarrow> setGoal nv parsed st =
            st\<lparr>savingsGoal := Some \<lparr>name = js_trim nv, target = parsed\<rparr>,
               localStorage := (localStorage st)
                 \<lparr>sft_goal := Some \<lparr>name = js_trim nv, target = json_of_number parsed\<rparr>\<rparr>\<rparr>)
   \<and> (json_of_number parsed = JNull \<longleftrightarrow> parsed = PInf \<or> parsed = NInf \<or> parsed = NaN)
   \<and> (\<forall>r. parsed = Fin r \<longrightarrow> json_of_number parsed = JNumber r)
   \<and> ((js_trim nv \<noteq> [] \<and> js_lt (Fin 0) parsed)
        \<longleftrightarrow> \<not> (js_trim nv = [] \<or> parsed = NaN \<or> js_le parsed (Fin 0)))"
proof -
  have a: "setGoal nv parsed st = st" if "js_trim nv = [] \<or> parsed = NaN \<or> js_le parsed (Fin 0)"
    using that by (cases parsed) (auto simp add: setGoal_def Let_def js_falsy_def)
  have b: "setGoal nv parsed st =
            st\<lparr>savingsGoal := Some \<lparr>name = js_trim nv, target = parsed\<rparr>,
               localStorage := (localStorage st)
                 \<lparr>sft_goal := Some \<lparr>name = js_trim nv, target = json_of_number parsed\<rparr>\<rparr>\<rparr>"
    if "js_trim nv \<noteq> [] \<and> js_lt (Fin 0) parsed"
    using that by (cases parsed) (simp_all add: setGoal_def Let_def js_falsy_def stored_goal_of_def)
  have c: "json_of_number parsed = JNull \<longleftrightarrow> parsed = PInf \<or> parsed = NInf \<or> parsed = NaN"
    by (cases parsed) simp_all
  have d: "\<forall>r. parsed = Fin r \<longrightarrow> json_of_number parsed = JNumber r" by simp
  have e: "(js_trim nv \<noteq> [] \<and> js_lt (Fin 0) parsed)
        \<longleftrightarrow> \<not> (js_trim nv = [] \<or> parsed = NaN \<or> js_le parsed (Fin 0))"
    by (cases parsed) auto
  from a b c d e show ?thesis by blast
qed

theorem setGoal_validation_witness:
  "setGoal ''   '' (Fin 10000000) (empty_state\<lparr>savingsGoal := Some meja\<rparr>)
     = empty_state\<lparr>savingsGoal := Some meja\<rparr>
   \<and> setGoal ''Laptop'' NaN (empty_state\<lparr>savingsGoal := Some meja\<rparr>)
     = empty_state\<lparr>savingsGoal := Some meja\<rparr>
   \<and> setGoal ''Laptop'' (Fin (- 5)) (empty_state\<lparr>savingsGoal := Some meja\<rparr>)
     = empty_state\<lparr>savingsGoal := Some meja\<rparr>
   \<and> savingsGoal (setGoal '' Laptop '' (Fin 10000000) (empty_state\<lparr>savingsGoal := Some meja\<rparr>))
     = Some laptop
   \<and> sft_goal (localStorage (setGoal '' Laptop '' (Fin 10000000) (empty_state\<lparr>savingsGoal := Some meja\<rparr>)))
     = Some \<lparr>name = ''Laptop'', target = JNumber 10000000\<rparr>"
  using setGoal_validation [of "''   ''" "Fin 10000000" "empty_state\<lparr>savingsGoal := Some meja\<rparr>"]
        setGoal_validation [of "''Laptop''" NaN "empty_state\<lparr>savingsGoal := Some meja\<rparr>"]
        setGoal_validation [of "''Laptop''" "Fin (- 5)" "empty_state\<lparr>savingsGoal := Some meja\<rparr>"]
        setGoal_validation [of "'' Laptop ''" "Fin 10000000" "empty_state\<lparr>savingsGoal := Some meja\<rparr>"]
  by (simp add: js_trim_def is_ws_def laptop_def)

subsection \<open>Table\<close>

lemma compareTxn_le_0: "compareTxn lc a b \<le> 0 \<longleftrightarrow> date_desc_id_desc lc a b"
  unfolding compareTxn_def js_or_def date_desc_id_desc_def
  by (simp add: not_less le_less)

lemma comparator_facts:
  assumes "consistent_comparator lc"
  shows "lc a b < 0 \<longleftrightarrow> 0 < lc b a"
    and "lc a b = 0 \<longleftrightarrow> lc b a = 0"
    and "lc a b \<le> 0 \<Longrightarrow> lc b c \<le> 0 \<Longrightarrow> lc a c \<le> 0"
proof -
  show s: "lc a b < 0 \<longleftrightarrow> 0 < lc b a" for a b
    using assms unfolding consistent_comparator_def by blast
  show "lc a b = 0 \<longleftrightarrow> lc b a = 0"
    using s [of a b] s [of b a] by linarith
  show "lc a b \<le> 0 \<Longrightarrow> lc b c \<le> 0 \<Longrightarrow> lc a c \<le> 0"
    using assms unfolding consistent_comparator_def by blast
qed

lemma date_desc_id_desc_total:
  assumes "consistent_comparator lc" and "\<not> date_desc_id_desc lc a b"
  shows "date_desc_id_desc lc b a"
proof -
  note f = comparator_facts [OF assms(1)]
  have d: "\<not> lc (date b) (date a) < 0"
    and i: "lc (date b) (date a) = 0 \<longrightarrow> \<not> lc (id_txn b) (id_txn a) \<le> 0"
    using assms(2) unfolding date_desc_id_desc_def by simp_all
  show ?thesis
  proof (cases "lc (date b) (date a) = 0")
    case True
    then have "lc (date a) (date b) = 0" using f(2) by blast
    moreover have "0 < lc (id_txn b) (id_txn a)" using i True by simp
    then have "lc (id_txn a) (id_txn b) < 0" using f(1) by blast
    ultimately show ?thesis unfolding date_desc_id_desc_def by simp
  next
    case False
    with d have "0 < lc (date b) (date a)" by simp
    then have "lc (date a) (date b) < 0" using f(1) by blast
    then show ?thesis unfolding date_desc_id_desc_def by simp
  qed
qed

lemma strict_le_trans:
  assumes "consistent_comparator lc" and "lc a b < 0" and "lc b c \<le> 0"
  shows "lc a c < 0"
proof (rule ccontr)
  note f = comparator_facts [OF assms(1)]
  assume "\<not> lc a c < 0"
  then have "\<not> 0 < lc c a" using f(1) by blast
  then have "lc c a \<le> 0" by simp
  with assms(3) have "lc b a \<le> 0" using f(3) by blast
  moreover have "0 < lc b a" using assms(2) f(1) by blast
  ultimately show False by simp
qed

lemma le_strict_trans:
  assumes "consistent_comparator lc" and "lc a b \<le> 0" and "lc b c < 0"
  shows "lc a c < 0"
proof (rule ccontr)
  note f = comparator_facts [OF assms(1)]
  assume "\<not> lc a c < 0"
  then have "\<not> 0 < lc c a" using f(1) by blast
  then have "lc c a \<le> 0" by simp
  with assms(2) have "lc c b \<le> 0" using f(3) by blast
  moreover have "0 < lc c b" using assms(3) f(1) by blast
  ultimately show False by simp
qed

lemma date_desc_id_desc_trans:
  assumes "consistent_comparator lc"
    and "date_desc_id_desc lc a b" and "date_desc_id_desc lc b c"
  shows "date_desc_id_desc lc a c"
proof -
  note f = comparator_facts [OF assms(1)]
  let ?ab = "lc (date b) (date a)" and ?bc = "lc (date c) (date b)" and ?ac = "lc (date c) (date a)"
  have ab: "?ab < 0 \<or> (?ab = 0 \<and> lc (id_txn b) (id_txn a) \<le> 0)"
    and bc: "?bc < 0 \<or> (?bc = 0 \<and> lc (id_txn c) (id_txn b) \<le> 0)"
    using assms(2,3) unfolding date_desc_id_desc_def by simp_all
  show ?thesis
  proof (cases "?ab < 0 \<or> ?bc < 0")
    case True
    have "?ab \<le> 0" using ab by auto
    moreover have "?bc \<le> 0" using bc by auto
    ultimately have "?ac < 0"
      using True strict_le_trans [OF assms(1), of "date c" "date b" "date a"]
        le_strict_trans [OF assms(1), of "date c" "date b" "date a"]
      by blast
    then show ?thesis unfolding date_desc_id_desc_def by simp
  next
    case False
    with ab bc have e: "?ab = 0" "?bc = 0"
      and i: "lc (id_txn b) (id_txn a) \<le> 0" "lc (id_txn c) (id_txn b) \<le> 0"
      by auto
    have "?ac \<le> 0" using e f(3) [of "date c" "date b" "date a"] by simp
    moreover have "lc (date a) (date b) = 0" "lc (date b) (date c) = 0"
      using e f(2) by blast+
    then have "lc (date a) (date c) \<le> 0" using f(3) [of "date a" "date b" "date c"] by simp
    then have "\<not> ?ac < 0" using f(1) [of "date c" "date a"] by simp
    ultimately have "?ac = 0" by simp
    moreover have "lc (id_txn c) (id_txn a) \<le> 0"
      using i f(3) [of "id_txn c" "id_txn b" "id_txn a"] by simp
    ultimately show ?thesis unfolding date_desc_id_desc_def by simp
  qed
qed

lemma set_insert_sorted: "set (insert_sorted cmp x ys) = insert x (set ys)"
  by (induction ys) auto

lemma mset_insert_sorted: "mset (insert_sorted cmp x ys) = add_mset x (mset ys)"
  by (induction ys) auto

lemma mset_js_sort: "mset (js_sort cmp xs) = mset xs"
  by (induction xs) (simp_all add: js_sort_def mset_insert_sorted)

lemma sorted_insert_sorted:
  assumes "consistent_comparator lc"
  shows "sorted_wrt (date_desc_id_desc lc) ys \<Longrightarrow>
         sorted_wrt (date_desc_id_desc lc) (insert_sorted (compareTxn lc) x ys)"
proof (induction ys)
  case Nil
  then show ?case by simp
next
  case (Cons y ys)
  have tail: "sorted_wrt (date_desc_id_desc lc) ys"
    and head: "\<forall>z \<in> set ys. date_desc_id_desc lc y z"
    using Cons.prems by simp_all
  show ?case
  proof (cases "compareTxn lc x y \<le> 0")
    case True
    then have xy: "date_desc_id_desc lc x y" by (simp only: compareTxn_le_0)
    have "\<forall>z \<in> set ys. date_desc_id_desc lc x z"
      using head xy date_desc_id_desc_trans [OF assms] by blast
    with True xy tail head show ?thesis by simp
  next
    case False
    then have yx: "date_desc_id_desc lc y x"
      using compareTxn_le_0 date_desc_id_desc_total [OF assms] by blast
    have "sorted_wrt (date_desc_id_desc lc) (insert_sorted (compareTxn lc) x ys)"
      using Cons.IH tail by blast
    with False yx head show ?thesis
      by (simp add: set_insert_sorted)
  qed
qed

lemma sorted_js_sort:
  "consistent_comparator lc \<Longrightarrow> sorted_wrt (date_desc_id_desc lc) (js_sort (compareTxn lc) xs)"
  by (induction xs) (simp_all add: js_sort_def sorted_insert_sorted)

lemma rows_renderTable:
  "rows (renderTable lc flt txs) =
     (if flt = ''all'' then js_sort (compareTxn lc) txs
      else filter (\<lambda>t. type_txn t = flt) (js_sort (compareTxn lc) txs))"
  by (simp add: renderTable_def Let_def)

lemma tableEmpty_renderTable:
  "tableEmpty_visible (renderTable lc flt txs) \<longleftrightarrow> rows (renderTable lc flt txs) = []"
  by (simp add: renderTable_def Let_def)

lemma consistent_codeunit_compare: "consistent_comparator codeunit_compare"
  unfolding consistent_comparator_def codeunit_compare_def
  by (auto simp add: not_less le_less split: if_splits)

text \<open>
  C8. For every transaction list and every value of the type filter, with
  \<^verbatim>\<open>localeCompare\<close> any consistent comparator: the rows of the table are sorted by date
  descending, ties broken by id descending, both in the order of \<^verbatim>\<open>localeCompare\<close>; they
  are the transactions of the list when the filter is \<^verbatim>\<open>all\<close>, and otherwise the sorted
  rows of the whole list with only those of the filtered type kept; the empty-state
  element is visible exactly when no transaction passes the filter.
\<close>

theorem renderTable_order:
  assumes "consistent_comparator lc"
  shows "(let v = renderTable lc flt txs;
        kept = (if flt = ''all'' then txs else filter (\<lambda>t. type_txn t = flt) txs)
    in sorted_wrt (date_desc_id_desc lc) (rows v)
     \<and> mset (rows v) = mset kept
     \<and> rows v = (if flt = ''all'' then rows (renderTable lc ''all'' txs)
                 else filter (\<lambda>t. type_txn t = flt) (rows (renderTable lc ''all'' txs)))
     \<and> (tableEmpty_visible v \<longleftrightarrow> kept = []))"
proof -
  let ?v = "renderTable lc flt txs"
  let ?kept = "if flt = ''all'' then txs else filter (\<lambda>t. type_txn t = flt) txs"
  have s: "sorted_wrt (date_desc_id_desc lc) (rows ?v)"
    using assms by (simp add: rows_renderTable sorted_js_sort sorted_wrt_filter)
  have m: "mset (rows ?v) = mset ?kept"
    by (simp add: rows_renderTable mset_js_sort)
  have r: "rows ?v = (if flt = ''all'' then rows (renderTable lc ''all'' txs)
                 else filter (\<lambda>t. type_txn t = flt) (rows (renderTable lc ''all'' txs)))"
    by (simp add: rows_renderTable)
  have "(rows ?v = []) = (mset (rows ?v) = {#})" by simp
  also have "\<dots> = (?kept = [])" by (simp only: m mset_zero_iff)
  finally have e: "tableEmpty_visible ?v \<longleftrightarrow> ?kept = []"
    by (simp only: tableEmpty_renderTable)
  show ?thesis
    unfolding Let_def
    by (intro conjI s m r e)
qed

theorem renderTable_order_witness:
  "renderTable codeunit_compare ''all'' [gaji, makanan]
     = \<lparr>rows = [makanan, gaji], tableEmpty_visible = False\<rparr>
   \<and> renderTable codeunit_compare ''income'' [gaji, makanan]
     = \<lparr>rows = [gaji], tableEmpty_visible = False\<rparr>
   \<and> sorted_wrt (date_desc_id_desc codeunit_compare)
        (rows (renderTable codeunit_compare ''all'' [gaji, makanan]))"
  using renderTable_order [OF consistent_codeunit_compare, of "''all''" "[gaji, makanan]"]
  by (simp add: renderTable_def js_sort_def compareTxn_def js_or_def codeunit_compare_def
      Let_def gaji_def makanan_def)

subsection \<open>Expenses by category\<close>

text \<open>
  The object \<^verbatim>\<open>grouped\<close> on plain keys: the keys are the categories in first-seen order,
  and positive amounts give positive values.
\<close>

lemma keys_obj_set:
  "map fst (obj_set g k v) = (if k \<in> fst ` set g then map fst g else map fst g @ [k])"
  by (induction g) (auto simp add: rev_image_eqI)

lemma map_of_obj_set: "map_of (obj_set g k v) = (map_of g)(k \<mapsto> v)"
  by (induction g) (auto simp add: fun_eq_iff)

lemma in_obj_set: "p \<in> set (obj_set g k v) \<Longrightarrow> p = (k, v) \<or> p \<in> set g"
  by (induction g) (auto split: if_splits)

lemma add_expense_plain:
  assumes "plain_key (category t)"
  shows "\<exists>v. add_expense g t = obj_set g (category t) v"
  using assms
  by (auto simp add: add_expense_def Let_def plain_key_def split: option.splits jsval.splits)

lemma keys_add_expense:
  assumes "plain_key (category t)"
  shows "map fst (add_expense g t) =
     (if category t \<in> fst ` set g then map fst g else map fst g @ [category t])"
proof -
  obtain v where "add_expense g t = obj_set g (category t) v"
    using add_expense_plain [OF assms] by blast
  then show ?thesis by (simp only: keys_obj_set)
qed

lemma first_seen_step:
  assumes "keys' = (if c \<in> set keys then keys else keys @ [c])"
  shows "keys' @ first_seen (filter (\<lambda>x. x \<notin> set keys') cs)
       = keys @ first_seen (filter (\<lambda>x. x \<notin> set keys) (c # cs))"
proof (cases "c \<in> set keys")
  case True
  with assms show ?thesis by simp
next
  case False
  have "filter (\<lambda>x. x \<notin> set (keys @ [c])) cs
      = filter (\<lambda>y. y \<noteq> c) (filter (\<lambda>x. x \<notin> set keys) cs)"
    by (auto intro: filter_cong)
  with False assms show ?thesis by simp
qed

lemma keys_foldl_add_expense:
  assumes "\<forall>t \<in> set es. plain_key (category t)"
  shows "map fst (foldl add_expense g es) =
     map fst g @ first_seen (filter (\<lambda>c. c \<notin> set (map fst g)) (map category es))"
  using assms
proof (induction es arbitrary: g)
  case Nil
  then show ?case by simp
next
  case (Cons t es)
  have k: "map fst (add_expense g t) =
      (if category t \<in> set (map fst g) then map fst g else map fst g @ [category t])"
    using Cons.prems by (simp add: keys_add_expense)
  have "map fst (foldl add_expense (add_expense g t) es) =
      map fst (add_expense g t)
      @ first_seen (filter (\<lambda>c. c \<notin> set (map fst (add_expense g t))) (map category es))"
    using Cons.prems by (intro Cons.IH) simp
  also have "\<dots> = map fst g
      @ first_seen (filter (\<lambda>c. c \<notin> set (map fst g)) (category t # map category es))"
    using k by (rule first_seen_step)
  finally show ?case by simp
qed

lemma keys_grouped:
  assumes "\<forall>t \<in> set txs. type_txn t = ''expense'' \<longrightarrow> plain_key (category t)"
  shows "map fst (grouped txs) =
     first_seen (map category (filter (\<lambda>t. type_txn t = ''expense'') txs))"
  using assms by (simp add: grouped_def keys_foldl_add_expense)

lemma set_first_seen: "set (first_seen xs) = set xs"
  by (induction xs rule: first_seen.induct) auto

lemma distinct_first_seen: "distinct (first_seen xs)"
  by (induction xs rule: first_seen.induct) (auto simp add: set_first_seen)

lemma own_properties_plain:
  assumes "\<forall>p \<in> set g. \<not> is_array_index (fst p)"
  shows "own_properties g = g"
proof -
  have "filter (\<lambda>p. is_array_index (fst p)) g = []" using assms by (simp add: filter_empty_conv)
  moreover have "filter (\<lambda>p. \<not> is_array_index (fst p)) g = g" using assms by simp
  ultimately show ?thesis by (simp add: own_properties_def)
qed

lemma own_properties_grouped:
  assumes "\<forall>t \<in> set txs. type_txn t = ''expense'' \<longrightarrow> plain_key (category t)"
  shows "own_properties (grouped txs) = grouped txs"
proof (rule own_properties_plain)
  show "\<forall>p \<in> set (grouped txs). \<not> is_array_index (fst p)"
  proof
    fix p assume "p \<in> set (grouped txs)"
    then have "fst p \<in> set (map fst (grouped txs))" by simp
    then have "fst p \<in> category ` set (filter (\<lambda>t. type_txn t = ''expense'') txs)"
      by (simp only: keys_grouped [OF assms] set_first_seen set_map)
    then show "\<not> is_array_index (fst p)" using assms by (auto simp add: plain_key_def)
  qed
qed

lemma min_subnormal_le_1: "min_subnormal \<le> 1"
proof -
  have "(2::real) powi (- 1074) \<le> 2 powi 0" by (rule power_int_increasing) simp_all
  then show ?thesis by (simp add: min_subnormal_def)
qed

lemma min_subnormal_le_numeral: "min_subnormal \<le> numeral n"
proof -
  have "(1::real) \<le> numeral n" by simp
  with min_subnormal_le_1 show ?thesis by (rule order_trans)
qed

lemma is_positive_not_falsy: "is_positive x \<Longrightarrow> \<not> js_falsy x"
  using min_subnormal_pos by (cases x) (auto simp add: js_falsy_def)

lemma js_add_positive:
  assumes "is_positive a" and "is_positive b"
  shows "is_positive (js_add a b)"
proof (cases a)
  case (Fin x)
  show ?thesis
  proof (cases b)
    case (Fin y)
    have "min_subnormal \<le> x + y"
      using assms \<open>a = Fin x\<close> Fin min_subnormal_pos by simp
    then have "to_double (x + y) = PInf \<or> (\<exists>z. min_subnormal \<le> z \<and> to_double (x + y) = Fin z)"
      by (rule to_double_positive)
    then show ?thesis using \<open>a = Fin x\<close> Fin by auto
  qed (use assms \<open>a = Fin x\<close> in simp_all)
qed (use assms in \<open>cases b; simp\<close>)+

lemma js_add_0_positive:
  assumes "is_positive b"
  shows "is_positive (js_add (Fin 0) b)"
proof (cases b)
  case (Fin y)
  then have "min_subnormal \<le> 0 + y" using assms by simp
  then have "to_double (0 + y) = PInf \<or> (\<exists>z. min_subnormal \<le> z \<and> to_double (0 + y) = Fin z)"
    by (rule to_double_positive)
  then show ?thesis using Fin by auto
qed (use assms in simp_all)

lemma add_expense_positive:
  assumes "plain_key (category t)" and "is_positive (amount t)"
    and "\<forall>p \<in> set g. positive_value (snd p)"
  shows "\<forall>p \<in> set (add_expense g t). positive_value (snd p)"
proof -
  let ?c = "category t"
  have new: "\<exists>x. add_expense g t = obj_set g ?c (Num x) \<and> is_positive x"
  proof (cases "map_of g ?c")
    case None
    then have "add_expense g t = obj_set g ?c (Num (js_add (Fin 0) (amount t)))"
      using assms(1) by (simp add: add_expense_def Let_def plain_key_def)
    moreover have "is_positive (js_add (Fin 0) (amount t))"
      using assms(2) by (rule js_add_0_positive)
    ultimately show ?thesis by blast
  next
    case (Some v)
    then have "(?c, v) \<in> set g" by (rule map_of_SomeD)
    with assms(3) have "positive_value v" by fastforce
    then obtain x where v: "v = Num x" and x: "is_positive x" by (cases v) simp_all
    then have "add_expense g t = obj_set g ?c (Num (js_add x (amount t)))"
      using Some assms(1)
      by (simp add: add_expense_def Let_def plain_key_def is_positive_not_falsy)
    moreover have "is_positive (js_add x (amount t))"
      using x assms(2) by (rule js_add_positive)
    ultimately show ?thesis by blast
  qed
  then obtain x where a: "add_expense g t = obj_set g ?c (Num x)" and x: "is_positive x" by blast
  show ?thesis
  proof
    fix p assume "p \<in> set (add_expense g t)"
    then have "p = (?c, Num x) \<or> p \<in> set g" unfolding a by (rule in_obj_set)
    then show "positive_value (snd p)" using x assms(3) by auto
  qed
qed

lemma foldl_add_expense_positive:
  assumes "\<forall>t \<in> set es. plain_key (category t) \<and> is_positive (amount t)"
    and "\<forall>p \<in> set g. positive_value (snd p)"
  shows "\<forall>p \<in> set (foldl add_expense g es). positive_value (snd p)"
  using assms
proof (induction es arbitrary: g)
  case Nil
  then show ?case by simp
next
  case (Cons t es)
  have "\<forall>p \<in> set (add_expense g t). positive_value (snd p)"
    using Cons.prems by (intro add_expense_positive) simp_all
  then show ?case using Cons.prems by (simp add: Cons.IH)
qed

lemma grouped_positive:
  assumes "\<forall>t \<in> set txs. type_txn t = ''expense'' \<longrightarrow> plain_key (category t) \<and> is_positive (amount t)"
  shows "\<forall>v \<in> set (map snd (grouped txs)). positive_value v"
proof -
  have "\<forall>p \<in> set (grouped txs). positive_value (snd p)"
    unfolding grouped_def using assms by (intro foldl_add_expense_positive) simp_all
  then show ?thesis by simp
qed

lemma positive_value_not_zero: "positive_value v \<Longrightarrow> v \<noteq> Num (Fin 0)"
  using min_subnormal_pos by (cases v) auto

text \<open>
  The grouping in exact arithmetic, and the grouping in doubles as its image when the
  amounts are whole and sum to at most \<open>2 ^ 53\<close>.
\<close>

lemma sum_obj_set:
  "distinct (map fst g) \<Longrightarrow>
   sum_list (map snd (obj_set g k v)) = sum_list (map snd g) - exact_current g k + v"
proof (induction g)
  case Nil
  then show ?case by (simp add: exact_current_def)
next
  case (Cons p g)
  obtain k' v' where p: "p = (k', v')" by (cases p)
  show ?case
  proof (cases "k' = k")
    case True
    then show ?thesis using p by (simp add: exact_current_def)
  next
    case False
    then have "exact_current (p # g) k = exact_current g k" using p by (simp add: exact_current_def)
    with False Cons p show ?thesis by simp
  qed
qed

lemma keys_exact_add:
  "map fst (exact_add g t) =
     (if category t \<in> set (map fst g) then map fst g else map fst g @ [category t])"
  by (simp add: exact_add_def keys_obj_set)

lemma distinct_exact_add:
  "distinct (map fst g) \<Longrightarrow> distinct (map fst (exact_add g t))"
  by (simp add: keys_exact_add)

lemma sum_exact_add:
  "distinct (map fst g) \<Longrightarrow>
   sum_list (map snd (exact_add g t)) = sum_list (map snd g) + finite_value (amount t)"
  by (simp add: exact_add_def sum_obj_set)

lemma current_exact_add:
  "exact_current (exact_add g t) c =
     exact_current g c + (if category t = c then finite_value (amount t) else 0)"
  by (simp add: exact_add_def map_of_obj_set exact_current_def)

lemma distinct_foldl_exact_add:
  "distinct (map fst g) \<Longrightarrow> distinct (map fst (foldl exact_add g es))"
  by (induction es arbitrary: g) (simp_all add: distinct_exact_add)

lemma sum_foldl_exact_add:
  "distinct (map fst g) \<Longrightarrow>
   sum_list (map snd (foldl exact_add g es))
     = sum_list (map snd g) + sum_list (map (\<lambda>t. finite_value (amount t)) es)"
  by (induction es arbitrary: g) (simp_all add: distinct_exact_add sum_exact_add)

lemma current_foldl_exact_add:
  "exact_current (foldl exact_add g es) c = exact_current g c + category_sum es c"
  by (induction es arbitrary: g) (simp_all add: current_exact_add category_sum_def)

lemma keys_foldl_exact_add:
  "map fst (foldl exact_add g es) =
     map fst g @ first_seen (filter (\<lambda>c. c \<notin> set (map fst g)) (map category es))"
proof (induction es arbitrary: g)
  case Nil
  then show ?case by simp
next
  case (Cons t es)
  have "map fst (foldl exact_add (exact_add g t) es) =
      map fst (exact_add g t)
      @ first_seen (filter (\<lambda>c. c \<notin> set (map fst (exact_add g t))) (map category es))"
    by (rule Cons.IH)
  also have "\<dots> = map fst g
      @ first_seen (filter (\<lambda>c. c \<notin> set (map fst g)) (category t # map category es))"
    using keys_exact_add by (rule first_seen_step)
  finally show ?case by simp
qed

lemma snd_by_key:
  "distinct (map fst g) \<Longrightarrow> map snd g = map (exact_current g) (map fst g)"
proof (induction g)
  case Nil
  then show ?case by simp
next
  case (Cons p g)
  obtain k v where p: "p = (k, v)" by (cases p)
  have "map (exact_current (p # g)) (map fst g) = map (exact_current g) (map fst g)"
    using Cons.prems p by (intro map_cong) (auto simp add: exact_current_def)
  with Cons p show ?case by (simp add: exact_current_def)
qed

lemma values_exact:
  "map snd (foldl exact_add [] es) = map (category_sum es) (map fst (foldl exact_add [] es))"
proof -
  have "distinct (map fst (foldl exact_add [] es))"
    by (rule distinct_foldl_exact_add) simp
  then have "map snd (foldl exact_add [] es)
      = map (exact_current (foldl exact_add [] es)) (map fst (foldl exact_add [] es))"
    by (rule snd_by_key)
  also have "exact_current (foldl exact_add [] es) = category_sum es"
  proof (rule ext)
    fix c
    have "exact_current [] c = 0" by (simp add: exact_current_def)
    then show "exact_current (foldl exact_add [] es) c = category_sum es c"
      by (simp only: current_foldl_exact_add add_0)
  qed
  finally show ?thesis .
qed

lemma whole_add:
  assumes "is_whole (Fin a)" and "is_whole (Fin b)"
  shows "is_whole (Fin (a + b))"
proof -
  have "a + b = of_int (\<lfloor>a\<rfloor> + \<lfloor>b\<rfloor>)" using assms by (simp only: is_whole.simps of_int_add)
  then have "of_int \<lfloor>a + b\<rfloor> = a + b" by (metis floor_of_int)
  then show ?thesis using assms by simp
qed

lemma value_le_sum:
  assumes "\<forall>p \<in> set g. 0 \<le> snd p" and "(c, v) \<in> set g"
  shows "v \<le> sum_list (map snd (g :: (string \<times> real) list))"
  using assms
proof (induction g)
  case Nil
  then show ?case by simp
next
  case (Cons p g)
  have rest: "0 \<le> sum_list (map snd g)"
    by (rule sum_list_nonneg) (use Cons.prems(1) in auto)
  show ?case
  proof (cases "(c, v) = p")
    case True
    then show ?thesis using rest by auto
  next
    case False
    then have "v \<le> sum_list (map snd g)" using Cons by simp
    moreover have "0 \<le> snd p" using Cons.prems(1) by simp
    ultimately show ?thesis by simp
  qed
qed

lemma lift_map_of:
  "map_of (lift_exact g) c = map_option (\<lambda>r. Num (Fin r)) (map_of g c)"
  by (induction g) (simp_all add: lift_exact_def)

lemma lift_obj_set:
  "obj_set (lift_exact g) c (Num (Fin r)) = lift_exact (obj_set g c r)"
  by (induction g c r rule: obj_set.induct) (simp_all add: lift_exact_def)

lemma add_expense_exact:
  assumes "plain_key (category t)" and "is_whole (amount t)"
    and "\<forall>p \<in> set g. is_whole (Fin (snd p))"
    and "sum_list (map snd g) + finite_value (amount t) \<le> 2 ^ 53"
  shows "add_expense (lift_exact g) t = lift_exact (exact_add g t)"
proof -
  let ?c = "category t" and ?a = "finite_value (amount t)"
  have nonneg: "\<forall>p \<in> set g. 0 \<le> snd p" using assms(3) by simp
  have total: "0 \<le> sum_list (map snd g)"
    by (rule sum_list_nonneg) (use nonneg in auto)
  have a0: "0 \<le> ?a" using assms(2) by (rule whole_nonneg)
  show ?thesis
  proof (cases "map_of g ?c")
    case None
    have "finite_value (Fin 0) + ?a \<le> 2 ^ 53" using assms(4) total by simp
    then have "js_add (Fin 0) (amount t) = Fin (finite_value (Fin 0) + ?a)"
      using assms(2) by (intro js_add_whole) simp_all
    then have "js_add (Fin 0) (amount t) = Fin (exact_current g ?c + ?a)"
      using None by (simp add: exact_current_def)
    then show ?thesis
      using None assms(1)
      by (simp add: add_expense_def Let_def plain_key_def lift_map_of exact_add_def lift_obj_set)
  next
    case (Some v)
    then have mem: "(?c, v) \<in> set g" by (rule map_of_SomeD)
    then have wv: "is_whole (Fin v)" using assms(3) by fastforce
    have "v \<le> sum_list (map snd g)" using nonneg mem by (rule value_le_sum)
    then have "finite_value (Fin v) + ?a \<le> 2 ^ 53" using assms(4) by simp
    then have "js_add (Fin v) (amount t) = Fin (finite_value (Fin v) + ?a)"
      using wv assms(2) by (intro js_add_whole)
    then have j: "js_add (Fin v) (amount t) = Fin (exact_current g ?c + ?a)"
      using Some by (simp add: exact_current_def)
    have "(if js_falsy (Fin v) then Fin 0 else Fin v) = Fin v"
      by (simp add: js_falsy_def)
    then show ?thesis
      using Some assms(1) j
      by (simp add: add_expense_def Let_def plain_key_def lift_map_of exact_add_def lift_obj_set)
  qed
qed

lemma exact_add_whole:
  assumes "is_whole (amount t)" and "\<forall>p \<in> set g. is_whole (Fin (snd p))"
  shows "\<forall>p \<in> set (exact_add g t). is_whole (Fin (snd p))"
proof
  fix p assume "p \<in> set (exact_add g t)"
  then have "p = (category t, exact_current g (category t) + finite_value (amount t)) \<or> p \<in> set g"
    unfolding exact_add_def by (rule in_obj_set)
  moreover have "is_whole (Fin (exact_current g (category t)))"
  proof (cases "map_of g (category t)")
    case None
    then show ?thesis by (simp add: exact_current_def)
  next
    case (Some v)
    then have "(category t, v) \<in> set g" by (rule map_of_SomeD)
    then have "is_whole (Fin v)" using assms(2) by fastforce
    then show ?thesis using Some by (simp add: exact_current_def)
  qed
  then have "is_whole (Fin (exact_current g (category t) + finite_value (amount t)))"
    using assms(1) by (intro whole_add) (simp_all add: is_whole_Fin [symmetric])
  ultimately show "is_whole (Fin (snd p))" using assms(2) by auto
qed

lemma foldl_add_expense_exact:
  assumes "\<forall>t \<in> set es. plain_key (category t) \<and> is_whole (amount t)"
    and "distinct (map fst g)" and "\<forall>p \<in> set g. is_whole (Fin (snd p))"
    and "sum_list (map snd g) + sum_list (map (\<lambda>t. finite_value (amount t)) es) \<le> 2 ^ 53"
  shows "foldl add_expense (lift_exact g) es = lift_exact (foldl exact_add g es)"
  using assms
proof (induction es arbitrary: g)
  case Nil
  then show ?case by simp
next
  case (Cons t es)
  have rest: "0 \<le> sum_list (map (\<lambda>t. finite_value (amount t)) es)"
    by (rule sum_list_nonneg) (use Cons.prems(1) in \<open>auto simp add: whole_nonneg\<close>)
  have step: "add_expense (lift_exact g) t = lift_exact (exact_add g t)"
    using Cons.prems rest by (intro add_expense_exact) simp_all
  have "foldl add_expense (lift_exact (exact_add g t)) es
      = lift_exact (foldl exact_add (exact_add g t) es)"
  proof (rule Cons.IH)
    show "\<forall>t \<in> set es. plain_key (category t) \<and> is_whole (amount t)"
      using Cons.prems(1) by simp
    show "distinct (map fst (exact_add g t))"
      using Cons.prems(2) by (rule distinct_exact_add)
    show "\<forall>p \<in> set (exact_add g t). is_whole (Fin (snd p))"
      using Cons.prems(1,3) by (intro exact_add_whole) simp_all
    show "sum_list (map snd (exact_add g t)) + sum_list (map (\<lambda>t. finite_value (amount t)) es)
          \<le> 2 ^ 53"
      using Cons.prems(2,4) by (simp add: sum_exact_add add.assoc)
  qed
  then show ?case using step by simp
qed

lemma grouped_exact:
  assumes "\<forall>t \<in> set es. plain_key (category t)" and "whole_amounts es"
    and "es = filter (\<lambda>t. type_txn t = ''expense'') txs"
  shows "grouped txs = lift_exact (foldl exact_add [] es)"
proof -
  have "foldl add_expense (lift_exact []) es = lift_exact (foldl exact_add [] es)"
    using assms(1,2)
    by (intro foldl_add_expense_exact) (simp_all add: whole_amounts_def list_all_iff)
  then show ?thesis by (simp add: grouped_def assms(3) lift_exact_def)
qed

lemma foldl_exact_add_whole:
  assumes "\<forall>t \<in> set es. is_whole (amount t)" and "\<forall>p \<in> set g. is_whole (Fin (snd p))"
  shows "\<forall>p \<in> set (foldl exact_add g es). is_whole (Fin (snd p))"
  using assms
proof (induction es arbitrary: g)
  case Nil
  then show ?case by simp
next
  case (Cons t es)
  have a: "\<forall>t \<in> set es. is_whole (amount t)" using Cons.prems(1) by simp
  have "is_whole (amount t)" using Cons.prems(1) by simp
  then have b: "\<forall>p \<in> set (exact_add g t). is_whole (Fin (snd p))"
    using Cons.prems(2) by (rule exact_add_whole)
  from Cons.IH [OF a b] show ?case by (simp only: foldl_Cons)
qed

lemma vocabulary_plain:
  "list_all plain_key (CATEGORIES ''expense'')" and "list_all plain_key (CATEGORIES ''income'')"
  by (simp_all add: CATEGORIES_def plain_key_def is_array_index_def Object_prototype_functions_def)

lemma Object_keys_grouped:
  assumes "\<forall>t \<in> set txs. type_txn t = ''expense'' \<longrightarrow> plain_key (category t)"
  shows "Object_keys (grouped txs) =
           first_seen (map category (filter (\<lambda>t. type_txn t = ''expense'') txs))"
    and "Object_values (grouped txs) = map snd (grouped txs)"
  using assms
  by (simp_all add: Object_keys_def Object_values_def own_properties_grouped keys_grouped)

lemma grouped_whole:
  assumes "\<forall>t \<in> set txs. type_txn t = ''expense'' \<longrightarrow> plain_key (category t)"
    and "whole_amounts (filter (\<lambda>t. type_txn t = ''expense'') txs)"
  shows "Object_values (grouped txs) =
           map (\<lambda>c. Num (Fin (category_sum (filter (\<lambda>t. type_txn t = ''expense'') txs) c)))
               (Object_keys (grouped txs))"
    and "foldl js_add (Fin 0)
           (map (\<lambda>c. Fin (category_sum (filter (\<lambda>t. type_txn t = ''expense'') txs) c))
                (Object_keys (grouped txs)))
         = expense (calcTotals txs)"
    and "expense (calcTotals txs) =
           Fin (sum_list (map (category_sum (filter (\<lambda>t. type_txn t = ''expense'') txs))
                              (Object_keys (grouped txs))))"
proof -
  let ?es = "filter (\<lambda>t. type_txn t = ''expense'') txs"
  let ?gx = "foldl exact_add [] ?es"
  have plain: "\<forall>t \<in> set ?es. plain_key (category t)" using assms(1) by simp
  have whole: "\<forall>t \<in> set ?es. is_whole (amount t)"
    and bound: "sum_list (map (\<lambda>t. finite_value (amount t)) ?es) \<le> 2 ^ 53"
    using assms(2) by (simp_all add: whole_amounts_def list_all_iff)
  have g: "grouped txs = lift_exact ?gx"
    using plain assms(2) by (rule grouped_exact) simp
  have keys: "map fst (grouped txs) = map fst ?gx"
    unfolding g by (simp add: lift_exact_def comp_def)
  have vals: "map snd (grouped txs) = map (\<lambda>r. Num (Fin r)) (map snd ?gx)"
    unfolding g by (simp add: lift_exact_def comp_def)
  have ok: "Object_keys (grouped txs) = map fst ?gx"
    and ov: "Object_values (grouped txs) = map (\<lambda>r. Num (Fin r)) (map snd ?gx)"
    using Object_keys_grouped [OF assms(1)] keys vals keys_grouped [OF assms(1)] by simp_all
  show "Object_values (grouped txs) =
           map (\<lambda>c. Num (Fin (category_sum ?es c))) (Object_keys (grouped txs))"
    unfolding ok ov by (subst values_exact) (simp add: comp_def)
  have wv: "list_all is_whole (map Fin (map snd ?gx))"
  proof -
    have "\<forall>p \<in> set ?gx. is_whole (Fin (snd p))"
      using whole by (intro foldl_exact_add_whole) simp_all
    then show ?thesis by (simp add: list_all_iff)
  qed
  have sx: "sum_list (map snd ?gx) = sum_list (map (\<lambda>t. finite_value (amount t)) ?es)"
    using sum_foldl_exact_add [of "[]" ?es] by simp
  have sv: "sum_list (map finite_value (map Fin (map snd ?gx)))
          = sum_list (map (\<lambda>t. finite_value (amount t)) ?es)"
  proof -
    have eq: "map finite_value (map Fin (map snd ?gx)) = map snd ?gx" by (simp add: comp_def)
    from sx show ?thesis by (simp only: eq)
  qed
  have "foldl js_add (Fin 0) (map Fin (map snd ?gx))
      = Fin (finite_value (Fin 0) + sum_list (map finite_value (map Fin (map snd ?gx))))"
  proof -
    have "finite_value (Fin 0) + sum_list (map finite_value (map Fin (map snd ?gx))) \<le> 2 ^ 53"
      using bound by (simp only: sv) simp
    with wv show ?thesis
      using foldl_js_add_whole [of "map Fin (map snd ?gx)" "Fin 0"] by simp
  qed
  then have values_sum: "foldl js_add (Fin 0) (map Fin (map snd ?gx))
      = Fin (sum_list (map (\<lambda>t. finite_value (amount t)) ?es))"
    by (simp only: sv) simp
  have ex: "expense (calcTotals txs) = Fin (sum_list (map (\<lambda>t. finite_value (amount t)) ?es))"
  proof -
    have "list_all is_whole (map amount ?es)" using whole by (simp add: list_all_iff)
    moreover have "map finite_value (map amount ?es) = map (\<lambda>t. finite_value (amount t)) ?es"
      by (simp add: comp_def)
    ultimately have "foldl js_add (Fin 0) (map amount ?es)
        = Fin (finite_value (Fin 0) + sum_list (map (\<lambda>t. finite_value (amount t)) ?es))"
      using bound foldl_js_add_whole [of "map amount ?es" "Fin 0"] by (simp add: comp_def)
    then show ?thesis by (simp add: expense_calcTotals)
  qed
  have "map (category_sum ?es) (Object_keys (grouped txs)) = map snd ?gx"
    unfolding ok by (rule values_exact [symmetric])
  then show "expense (calcTotals txs) =
           Fin (sum_list (map (category_sum ?es) (Object_keys (grouped txs))))"
    using ex sx by simp
  have "map (\<lambda>c. Fin (category_sum ?es c)) (Object_keys (grouped txs))
      = map Fin (map snd ?gx)"
    unfolding ok by (subst values_exact [of ?es]) (simp add: comp_def)
  with ex show "foldl js_add (Fin 0)
           (map (\<lambda>c. Fin (category_sum ?es c)) (Object_keys (grouped txs)))
         = expense (calcTotals txs)"
    using values_sum by simp
qed

lemma first_seen_Nil_iff: "first_seen xs = [] \<longleftrightarrow> xs = []"
  by (cases xs) simp_all

lemma grouped_no_expense:
  "filter (\<lambda>t. type_txn t = ''expense'') txs = [] \<Longrightarrow> grouped txs = []"
  by (simp add: grouped_def)

lemma Object_keys_Nil: "Object_keys [] = []" and Object_values_Nil: "Object_values [] = []"
  by (simp_all add: Object_keys_def Object_values_def own_properties_def)

lemma length_Object_values: "length (Object_values g) = length (Object_keys g)"
  by (simp add: Object_keys_def Object_values_def)

lemma length_PIE_COLORS: "length PIE_COLORS = 10"
  by (simp add: PIE_COLORS_def)

lemma slice_color_cycle:
  assumes "i < n"
  shows "slice_color \<lparr>labels = ls, data = ds, backgroundColor = take n PIE_COLORS\<rparr> i
           = PIE_COLORS ! (i mod length PIE_COLORS)"
proof (cases "n \<le> length PIE_COLORS")
  case True
  then have "i < length PIE_COLORS" using assms by simp
  with True assms show ?thesis by (simp add: slice_color_def min_def)
next
  case False
  then have "min (length PIE_COLORS) n = length PIE_COLORS" by simp
  moreover have "i mod length PIE_COLORS < length PIE_COLORS"
    by (simp add: length_PIE_COLORS)
  ultimately show ?thesis using False by (simp add: slice_color_def)
qed

lemma transactions_deleteTransaction:
  "transactions (deleteTransaction i st) = filter (\<lambda>t. id_txn t \<noteq> i) (transactions st)"
  by (simp add: deleteTransaction_def persist_def)

lemma stored_deleteTransaction:
  "sft_transactions (localStorage (deleteTransaction i st))
     = Some (map stored_txn (filter (\<lambda>t. id_txn t \<noteq> i) (transactions st)))"
  by (simp add: deleteTransaction_def persist_def)

lemma count_list_filter_kept:
  "P t \<Longrightarrow> count_list (filter P xs) t = count_list xs t"
  by (induction xs) auto

lemma grouped_positive_values:
  assumes "\<forall>t \<in> set txs. type_txn t = ''expense'' \<longrightarrow> plain_key (category t)"
    and "\<forall>t \<in> set txs. type_txn t = ''expense'' \<longrightarrow> is_positive (amount t)"
  shows "list_all positive_value (Object_values (grouped txs))"
    and "Num (Fin 0) \<notin> set (Object_values (grouped txs))"
proof -
  have "\<forall>t \<in> set txs. type_txn t = ''expense''
           \<longrightarrow> plain_key (category t) \<and> is_positive (amount t)"
    using assms by simp
  then have "\<forall>v \<in> set (map snd (grouped txs)). positive_value v"
    by (rule grouped_positive)
  then show a: "list_all positive_value (Object_values (grouped txs))"
    using Object_keys_grouped(2) [OF assms(1)] by (simp add: list_all_iff)
  show "Num (Fin 0) \<notin> set (Object_values (grouped txs))"
  proof
    assume "Num (Fin 0) \<in> set (Object_values (grouped txs))"
    with a have "positive_value (Num (Fin 0))" by (simp only: list_all_iff)
    then show False using positive_value_not_zero by blast
  qed
qed

lemma plain_Makanan: "plain_key ''Makanan''" and plain_Bensin: "plain_key ''Bensin''"
  and plain_Minuman: "plain_key ''Minuman''"
  by (simp_all add: plain_key_def is_array_index_def Object_prototype_functions_def)

text \<open>
  C3, amended. For every transaction list in which the category of every expense is a
  plain key (every category of the vocabulary is one), the keys of the mapping are the
  categories of the expense transactions in first-seen order. When also every expense
  amount is positive, every value is a positive number, so no category has the total
  zero. When also every expense amount is a whole number from 0 on and the amounts sum to
  at most \<open>2 ^ 53\<close>, each value is the exact sum of the amounts of its category, and the
  sum of the values, exact or added in doubles, equals the total expense.
\<close>

theorem grouped_by_category:
  "(let es = filter (\<lambda>t. type_txn t = ''expense'') txs; g = grouped txs
    in (list_all (\<lambda>t. plain_key (category t)) es \<longrightarrow>
          Object_keys g = first_seen (map category es)
          \<and> (list_all (\<lambda>t. is_positive (amount t)) es \<longrightarrow>
                list_all positive_value (Object_values g) \<and> Num (Fin 0) \<notin> set (Object_values g))
          \<and> (whole_amounts es \<longrightarrow>
                Object_values g = map (\<lambda>c. Num (Fin (category_sum es c))) (Object_keys g)
                \<and> expense (calcTotals txs) = Fin (sum_list (map (category_sum es) (Object_keys g)))
                \<and> foldl js_add (Fin 0) (map (\<lambda>c. Fin (category_sum es c)) (Object_keys g))
                    = expense (calcTotals txs))))
   \<and> list_all plain_key (CATEGORIES ''expense'')"
proof -
  let ?es = "filter (\<lambda>t. type_txn t = ''expense'') txs"
  have "Object_keys (grouped txs) = first_seen (map category ?es)
        \<and> (list_all (\<lambda>t. is_positive (amount t)) ?es \<longrightarrow>
              list_all positive_value (Object_values (grouped txs))
              \<and> Num (Fin 0) \<notin> set (Object_values (grouped txs)))
        \<and> (whole_amounts ?es \<longrightarrow>
              Object_values (grouped txs)
                = map (\<lambda>c. Num (Fin (category_sum ?es c))) (Object_keys (grouped txs))
              \<and> expense (calcTotals txs)
                  = Fin (sum_list (map (category_sum ?es) (Object_keys (grouped txs))))
              \<and> foldl js_add (Fin 0)
                    (map (\<lambda>c. Fin (category_sum ?es c)) (Object_keys (grouped txs)))
                  = expense (calcTotals txs))"
    if "list_all (\<lambda>t. plain_key (category t)) ?es"
  proof -
    from that have plain: "\<forall>t \<in> set txs. type_txn t = ''expense'' \<longrightarrow> plain_key (category t)"
      by (simp add: list_all_iff)
    have pos: "list_all positive_value (Object_values (grouped txs))
               \<and> Num (Fin 0) \<notin> set (Object_values (grouped txs))"
      if "list_all (\<lambda>t. is_positive (amount t)) ?es"
    proof -
      from that have "\<forall>t \<in> set txs. type_txn t = ''expense'' \<longrightarrow> is_positive (amount t)"
        by (simp add: list_all_iff)
      with plain show ?thesis
        using grouped_positive_values [of txs] by blast
    qed
    show ?thesis
      using Object_keys_grouped(1) [OF plain] pos grouped_whole [OF plain] by blast
  qed
  then show ?thesis
    unfolding Let_def using vocabulary_plain(1) by blast
qed

theorem grouped_by_category_witness:
  "Object_keys (grouped [makanan, gaji, bensin, jajan]) = [''Makanan'', ''Bensin'']
   \<and> Object_values (grouped [makanan, gaji, bensin, jajan])
       = [Num (Fin 2100000), Num (Fin 50000)]
   \<and> expense (calcTotals [makanan, gaji, bensin, jajan]) = Fin 2150000
   \<and> list_all positive_value (Object_values (grouped [makanan, gaji, bensin, jajan]))"
proof -
  let ?txs = "[makanan, gaji, bensin, jajan]"
  let ?es = "[makanan, bensin, jajan]"
  have es: "filter (\<lambda>t. type_txn t = ''expense'') ?txs = ?es"
    by (simp add: makanan_def gaji_def bensin_def jajan_def)
  have plain: "list_all (\<lambda>t. plain_key (category t)) ?es"
    by (simp add: makanan_def bensin_def jajan_def plain_Makanan plain_Bensin)
  have pos: "list_all (\<lambda>t. is_positive (amount t)) ?es"
    by (simp add: makanan_def bensin_def jajan_def min_subnormal_le_numeral)
  have whole: "whole_amounts ?es"
    by (simp add: whole_amounts_def makanan_def bensin_def jajan_def)
  have first: "first_seen (map category ?es) = [''Makanan'', ''Bensin'']"
    by (simp add: makanan_def bensin_def jajan_def)
  have sums: "category_sum ?es ''Makanan'' = 2100000" "category_sum ?es ''Bensin'' = 50000"
    by (simp_all add: category_sum_def makanan_def bensin_def jajan_def)
  have "Object_keys (grouped ?txs) = first_seen (map category ?es)
        \<and> list_all positive_value (Object_values (grouped ?txs))
        \<and> Object_values (grouped ?txs)
            = map (\<lambda>c. Num (Fin (category_sum ?es c))) (Object_keys (grouped ?txs))
        \<and> expense (calcTotals ?txs)
            = Fin (sum_list (map (category_sum ?es) (Object_keys (grouped ?txs))))"
    using grouped_by_category [of ?txs] plain pos whole unfolding Let_def es by blast
  then have k: "Object_keys (grouped ?txs) = [''Makanan'', ''Bensin'']"
    and p: "list_all positive_value (Object_values (grouped ?txs))"
    and v: "Object_values (grouped ?txs)
            = map (\<lambda>c. Num (Fin (category_sum ?es c))) (Object_keys (grouped ?txs))"
    and e: "expense (calcTotals ?txs)
            = Fin (sum_list (map (category_sum ?es) (Object_keys (grouped ?txs))))"
    unfolding first by blast+
  have "Object_values (grouped ?txs) = [Num (Fin 2100000), Num (Fin 50000)]"
    using v unfolding k by (simp add: sums)
  moreover have "expense (calcTotals ?txs) = Fin 2150000"
    using e unfolding k by (simp add: sums)
  ultimately show ?thesis using k p by blast
qed

text \<open>
  C3, as the claim states it, fails on the list \<open>campur\<close>: an expense of \<open>2 ^ 53\<close> in the
  category 2, two expenses of 1 in the category 1, and an expense of 0 in Minuman. The
  keys are listed as 1, 2, Minuman, the array indices first and ascending, while the
  first-seen order is 2, 1, Minuman. The key Minuman has the total zero. The values are
  2, \<open>2 ^ 53\<close> and 0, which add up to \<open>2 ^ 53 + 2\<close>, while the total expense, added in list
  order, is \<open>2 ^ 53\<close>, because \<open>2 ^ 53 + 1\<close> rounds to \<open>2 ^ 53\<close>. Two names that the empty
  object inherits: an expense in the category \<^verbatim>\<open>__proto__\<close> leaves the mapping without a
  key, and an expense in the category \<^verbatim>\<open>toString\<close> gives a value that is a string, not a
  number.
\<close>

theorem grouped_counterexample:
  "Object_keys (grouped campur) = [''1'', ''2'', ''Minuman'']
   \<and> first_seen (map category (filter (\<lambda>t. type_txn t = ''expense'') campur))
       = [''2'', ''1'', ''Minuman'']
   \<and> Object_values (grouped campur) = [Num (Fin 2), Num (Fin two53), Num (Fin 0)]
   \<and> expense (calcTotals campur) = Fin two53
   \<and> js_add (js_add (js_add (Fin 0) (Fin 2)) (Fin two53)) (Fin 0) = Fin (2 + two53)
   \<and> Fin (2 + two53) \<noteq> expense (calcTotals campur)
   \<and> Object_keys (grouped [belanja ''p1'' ''__proto__'' 5000]) = []
   \<and> Object_values (grouped [belanja ''p2'' ''toString'' 5000]) = [Str]"
proof -
  have p1: "Object_keys (grouped [belanja ''p1'' ''__proto__'' 5000]) = []"
    by (simp add: grouped_def belanja_def add_expense_def Object_keys_def own_properties_def)
  have p2: "Object_values (grouped [belanja ''p2'' ''toString'' 5000]) = [Str]"
    by (simp add: grouped_def belanja_def add_expense_def Object_prototype_functions_def
        Object_values_def own_properties_def is_array_index_def)
  have g: "grouped campur = [(''2'', Num (Fin two53)), (''1'', Num (Fin 2)), (''Minuman'', Num (Fin 0))]"
    by (simp add: grouped_def campur_def belanja_def air_def add_expense_def js_falsy_def
        Object_prototype_functions_def two53_exact to_double_numeral to_double_0 to_double_1)
  have idx: "is_array_index ''1''" "is_array_index ''2''" "\<not> is_array_index ''Minuman''"
    "index_value ''1'' = 1" "index_value ''2'' = 2"
    by (simp_all add: is_array_index_def index_value_def)
  have own: "own_properties [(''2'', Num (Fin two53)), (''1'', Num (Fin 2)), (''Minuman'', Num (Fin 0))]
      = [(''1'', Num (Fin 2)), (''2'', Num (Fin two53)), (''Minuman'', Num (Fin 0))]"
    by (simp add: own_properties_def idx)
  have e: "expense (calcTotals campur) = Fin two53"
    by (simp add: expense_calcTotals campur_def belanja_def air_def two53_exact two53_tie to_double_0)
  have s: "js_add (js_add (js_add (Fin 0) (Fin 2)) (Fin two53)) (Fin 0) = Fin (2 + two53)"
    by (simp add: two53_plus_2 to_double_numeral)
  have "Object_keys (grouped campur) = [''1'', ''2'', ''Minuman'']
      \<and> first_seen (map category (filter (\<lambda>t. type_txn t = ''expense'') campur))
          = [''2'', ''1'', ''Minuman'']
      \<and> Object_values (grouped campur) = [Num (Fin 2), Num (Fin two53), Num (Fin 0)]
      \<and> expense (calcTotals campur) = Fin two53
      \<and> js_add (js_add (js_add (Fin 0) (Fin 2)) (Fin two53)) (Fin 0) = Fin (2 + two53)
      \<and> Fin (2 + two53) \<noteq> expense (calcTotals campur)"
    unfolding g e s Object_keys_def Object_values_def own
    by (simp add: campur_def belanja_def air_def)
  with p1 p2 show ?thesis by blast
qed

subsection \<open>Pie chart\<close>

lemma renderPieChart_no_expense:
  "filter (\<lambda>t. type_txn t = ''expense'') txs = []
   \<Longrightarrow> renderPieChart txs = \<lparr>pieEmpty_visible = True, pieChart = None\<rparr>"
  by (simp add: renderPieChart_def Let_def grouped_no_expense Object_keys_Nil)

lemma renderPieChart_plain:
  assumes "filter (\<lambda>t. type_txn t = ''expense'') txs \<noteq> []"
    and "\<forall>t \<in> set txs. type_txn t = ''expense'' \<longrightarrow> plain_key (category t)"
  shows "renderPieChart txs =
           \<lparr>pieEmpty_visible = False,
            pieChart = Some \<lparr>labels = first_seen (map category (filter (\<lambda>t. type_txn t = ''expense'') txs)),
                             data = Object_values (grouped txs),
                             backgroundColor =
                               take (length (first_seen (map category
                                       (filter (\<lambda>t. type_txn t = ''expense'') txs))))
                                    PIE_COLORS\<rparr>\<rparr>"
proof -
  have k: "Object_keys (grouped txs)
           = first_seen (map category (filter (\<lambda>t. type_txn t = ''expense'') txs))"
    using assms(2) by (rule Object_keys_grouped(1))
  have "first_seen (map category (filter (\<lambda>t. type_txn t = ''expense'') txs)) \<noteq> []"
    using assms(1) by (simp add: first_seen_Nil_iff)
  then show ?thesis
    by (simp add: renderPieChart_def Let_def k)
qed

text \<open>
  C9, amended. For every transaction list with no expense transaction the chart is absent
  and the empty state is shown. For every transaction list with an expense transaction,
  in which the category of every expense is a plain key (every category of the vocabulary
  is one), the empty state is hidden and the chart has one slice per category that occurs
  among the expense transactions, in first-seen order; the colours handed to the chart
  are the first colours of the fixed palette, as many as there are slices and at most
  ten, and slice \<open>i\<close> is drawn in the colour \<open>i mod 10\<close> of the palette, cycling when there
  are more than ten categories (the vocabulary has twenty). When every expense amount is
  positive, every slice has a positive value; when the expense amounts are whole numbers
  from 0 on that sum to at most \<open>2 ^ 53\<close>, the value of a slice is the exact total of its
  category.
\<close>

theorem renderPieChart_slices:
  "(let es = filter (\<lambda>t. type_txn t = ''expense'') txs;
        ch = \<lparr>labels = first_seen (map category es),
              data = Object_values (grouped txs),
              backgroundColor = take (length (first_seen (map category es))) PIE_COLORS\<rparr>
    in (es = [] \<longrightarrow> renderPieChart txs = \<lparr>pieEmpty_visible = True, pieChart = None\<rparr>)
       \<and> (es \<noteq> [] \<and> list_all (\<lambda>t. plain_key (category t)) es \<longrightarrow>
            renderPieChart txs = \<lparr>pieEmpty_visible = False, pieChart = Some ch\<rparr>
            \<and> length (data ch) = length (labels ch)
            \<and> (\<forall>i < length (labels ch).
                  slice_color ch i = PIE_COLORS ! (i mod length PIE_COLORS))
            \<and> (list_all (\<lambda>t. is_positive (amount t)) es \<longrightarrow>
                  list_all positive_value (data ch) \<and> Num (Fin 0) \<notin> set (data ch))
            \<and> (whole_amounts es \<longrightarrow>
                  data ch = map (\<lambda>c. Num (Fin (category_sum es c))) (labels ch))))
   \<and> length PIE_COLORS = 10
   \<and> length (CATEGORIES ''expense'') = 20
   \<and> list_all plain_key (CATEGORIES ''expense'')"
proof -
  let ?es = "filter (\<lambda>t. type_txn t = ''expense'') txs"
  let ?ls = "first_seen (map category ?es)"
  let ?ch = "\<lparr>labels = ?ls, data = Object_values (grouped txs),
              backgroundColor = take (length ?ls) PIE_COLORS\<rparr>"
  have a: "?es = [] \<longrightarrow> renderPieChart txs = \<lparr>pieEmpty_visible = True, pieChart = None\<rparr>"
    using renderPieChart_no_expense by blast
  have b: "renderPieChart txs = \<lparr>pieEmpty_visible = False, pieChart = Some ?ch\<rparr>
           \<and> length (data ?ch) = length (labels ?ch)
           \<and> (\<forall>i < length (labels ?ch).
                 slice_color ?ch i = PIE_COLORS ! (i mod length PIE_COLORS))
           \<and> (list_all (\<lambda>t. is_positive (amount t)) ?es \<longrightarrow>
                 list_all positive_value (data ?ch) \<and> Num (Fin 0) \<notin> set (data ?ch))
           \<and> (whole_amounts ?es \<longrightarrow>
                 data ?ch = map (\<lambda>c. Num (Fin (category_sum ?es c))) (labels ?ch))"
    if ne: "?es \<noteq> []" and pl: "list_all (\<lambda>t. plain_key (category t)) ?es"
  proof -
    from pl have plain: "\<forall>t \<in> set txs. type_txn t = ''expense'' \<longrightarrow> plain_key (category t)"
      by (simp add: list_all_iff)
    have k: "Object_keys (grouped txs) = ?ls"
      using plain by (rule Object_keys_grouped(1))
    have 1: "renderPieChart txs = \<lparr>pieEmpty_visible = False, pieChart = Some ?ch\<rparr>"
      using ne plain by (rule renderPieChart_plain)
    have 2: "length (data ?ch) = length (labels ?ch)"
      using length_Object_values [of "grouped txs"] k by simp
    have 3: "\<forall>i < length (labels ?ch).
               slice_color ?ch i = PIE_COLORS ! (i mod length PIE_COLORS)"
      by (simp add: slice_color_cycle)
    have 4: "list_all positive_value (data ?ch) \<and> Num (Fin 0) \<notin> set (data ?ch)"
      if "list_all (\<lambda>t. is_positive (amount t)) ?es"
    proof -
      from that have "\<forall>t \<in> set txs. type_txn t = ''expense'' \<longrightarrow> is_positive (amount t)"
        by (simp add: list_all_iff)
      with plain show ?thesis
        using grouped_positive_values [of txs] by simp
    qed
    have 5: "data ?ch = map (\<lambda>c. Num (Fin (category_sum ?es c))) (labels ?ch)"
      if "whole_amounts ?es"
      using grouped_whole(1) [OF plain that] k by simp
    from 1 2 3 4 5 show ?thesis by blast
  qed
  have c: "length PIE_COLORS = 10" by (rule length_PIE_COLORS)
  have d: "length (CATEGORIES ''expense'') = 20" by (simp add: CATEGORIES_def)
  from a b c d vocabulary_plain(1) show ?thesis
    unfolding Let_def by blast
qed

theorem renderPieChart_slices_witness:
  "renderPieChart [makanan, gaji, bensin, jajan]
     = \<lparr>pieEmpty_visible = False,
        pieChart = Some \<lparr>labels = [''Makanan'', ''Bensin''],
                         data = [Num (Fin 2100000), Num (Fin 50000)],
                         backgroundColor = [''#6366f1'', ''#818cf8'']\<rparr>\<rparr>
   \<and> slice_color \<lparr>labels = [''Makanan'', ''Bensin''],
                   data = Object_values (grouped [makanan, gaji, bensin, jajan]),
                   backgroundColor = take 2 PIE_COLORS\<rparr> 1 = ''#818cf8''
   \<and> renderPieChart [gaji] = \<lparr>pieEmpty_visible = True, pieChart = None\<rparr>"
proof -
  let ?txs = "[makanan, gaji, bensin, jajan]"
  let ?es = "[makanan, bensin, jajan]"
  have es: "filter (\<lambda>t. type_txn t = ''expense'') ?txs = ?es"
    by (simp add: makanan_def gaji_def bensin_def jajan_def)
  have ne: "?es \<noteq> []" by simp
  have plain: "list_all (\<lambda>t. plain_key (category t)) ?es"
    by (simp add: makanan_def bensin_def jajan_def plain_Makanan plain_Bensin)
  have whole: "whole_amounts ?es"
    by (simp add: whole_amounts_def makanan_def bensin_def jajan_def)
  have first: "first_seen (map category ?es) = [''Makanan'', ''Bensin'']"
    by (simp add: makanan_def bensin_def jajan_def)
  have sums: "category_sum ?es ''Makanan'' = 2100000" "category_sum ?es ''Bensin'' = 50000"
    by (simp_all add: category_sum_def makanan_def bensin_def jajan_def)
  have len: "length [''Makanan'', ''Bensin''] = 2" by simp
  let ?ch = "\<lparr>labels = [''Makanan'', ''Bensin''], data = Object_values (grouped ?txs),
              backgroundColor = take 2 PIE_COLORS\<rparr>"
  have "renderPieChart ?txs = \<lparr>pieEmpty_visible = False, pieChart = Some ?ch\<rparr>
        \<and> (\<forall>i < length (labels ?ch). slice_color ?ch i = PIE_COLORS ! (i mod length PIE_COLORS))
        \<and> data ?ch = map (\<lambda>c. Num (Fin (category_sum ?es c))) (labels ?ch)"
    using renderPieChart_slices [of ?txs] ne plain whole
    unfolding Let_def es first len by blast
  then have r: "renderPieChart ?txs = \<lparr>pieEmpty_visible = False, pieChart = Some ?ch\<rparr>"
    and s: "\<forall>i < length (labels ?ch). slice_color ?ch i = PIE_COLORS ! (i mod length PIE_COLORS)"
    and d: "data ?ch = map (\<lambda>c. Num (Fin (category_sum ?es c))) (labels ?ch)"
    by blast+
  from d have v: "Object_values (grouped ?txs) = [Num (Fin 2100000), Num (Fin 50000)]"
    by (simp add: sums)
  have "renderPieChart ?txs
     = \<lparr>pieEmpty_visible = False,
        pieChart = Some \<lparr>labels = [''Makanan'', ''Bensin''],
                         data = [Num (Fin 2100000), Num (Fin 50000)],
                         backgroundColor = [''#6366f1'', ''#818cf8'']\<rparr>\<rparr>"
    unfolding r v by (simp add: PIE_COLORS_def)
  moreover have "slice_color ?ch 1 = ''#818cf8''"
    using s by (simp add: PIE_COLORS_def)
  moreover have "renderPieChart [gaji] = \<lparr>pieEmpty_visible = True, pieChart = None\<rparr>"
    using renderPieChart_slices [of "[gaji]"] by (simp add: Let_def gaji_def)
  ultimately show ?thesis by blast
qed

text \<open>
  C9, as the claim states it, fails in two places. A single expense of amount 0 in
  Minuman gives a chart with one slice, for a category whose expense total is zero. And a
  single expense of 5,000 whose category is \<^verbatim>\<open>__proto__\<close> gives no slice for a category with
  a nonzero total: the assignment to \<^verbatim>\<open>__proto__\<close> creates no property, the object has no
  key, and the empty state is shown.
\<close>

theorem renderPieChart_counterexample:
  "renderPieChart [air]
     = \<lparr>pieEmpty_visible = False,
        pieChart = Some \<lparr>labels = [''Minuman''], data = [Num (Fin 0)],
                         backgroundColor = [''#6366f1'']\<rparr>\<rparr>
   \<and> category_sum [air] ''Minuman'' = 0
   \<and> filter (\<lambda>t. type_txn t = ''expense'') [belanja ''p1'' ''__proto__'' 5000] \<noteq> []
   \<and> category_sum [belanja ''p1'' ''__proto__'' 5000] ''__proto__'' = 5000
   \<and> renderPieChart [belanja ''p1'' ''__proto__'' 5000]
       = \<lparr>pieEmpty_visible = True, pieChart = None\<rparr>"
proof -
  have g: "grouped [air] = [(''Minuman'', Num (Fin 0))]"
    by (simp add: grouped_def air_def add_expense_def Object_prototype_functions_def to_double_0)
  have o: "own_properties [(''Minuman'', Num (Fin 0))] = [(''Minuman'', Num (Fin 0))]"
    by (simp add: own_properties_def is_array_index_def)
  have 1: "renderPieChart [air]
     = \<lparr>pieEmpty_visible = False,
        pieChart = Some \<lparr>labels = [''Minuman''], data = [Num (Fin 0)],
                         backgroundColor = [''#6366f1'']\<rparr>\<rparr>"
    by (simp add: renderPieChart_def Let_def g Object_keys_def Object_values_def o PIE_COLORS_def)
  have g': "grouped [belanja ''p1'' ''__proto__'' 5000] = []"
    by (simp add: grouped_def belanja_def add_expense_def)
  have 2: "renderPieChart [belanja ''p1'' ''__proto__'' 5000]
       = \<lparr>pieEmpty_visible = True, pieChart = None\<rparr>"
    by (simp add: renderPieChart_def Let_def g' Object_keys_Nil)
  have 3: "category_sum [air] ''Minuman'' = 0"
    "category_sum [belanja ''p1'' ''__proto__'' 5000] ''__proto__'' = 5000"
    "filter (\<lambda>t. type_txn t = ''expense'') [belanja ''p1'' ''__proto__'' 5000] \<noteq> []"
    by (simp_all add: category_sum_def air_def belanja_def)
  from 1 2 3 show ?thesis by blast
qed

subsection \<open>Deleting\<close>

text \<open>
  C6. Deleting an id that no transaction of the list has leaves the list as it was, in
  length and in contents; the list is persisted afterwards.
\<close>

theorem deleteTransaction_absent_id:
  assumes "i \<notin> id_txn ` set (transactions st)"
  shows "transactions (deleteTransaction i st) = transactions st
       \<and> length (transactions (deleteTransaction i st)) = length (transactions st)
       \<and> sft_transactions (localStorage (deleteTransaction i st))
           = Some (map stored_txn (transactions st))"
proof -
  have "filter (\<lambda>t. id_txn t \<noteq> i) (transactions st) = transactions st"
    using assms by (intro filter_True) auto
  then show ?thesis
    by (simp add: transactions_deleteTransaction stored_deleteTransaction)
qed

theorem deleteTransaction_absent_id_witness:
  "transactions (deleteTransaction ''zz9'' (empty_state\<lparr>transactions := [gaji, makanan]\<rparr>))
     = [gaji, makanan]"
  using deleteTransaction_absent_id
    [of "''zz9''" "empty_state\<lparr>transactions := [gaji, makanan]\<rparr>"]
  by (simp add: gaji_def makanan_def)

text \<open>
  C10. Deleting an id removes every transaction that has it, not only the first: none is
  left in the list. Every other transaction stays as often as it occurred, and the list
  after the deletion is a subsequence of the list before, so those that remain keep their
  relative order.
\<close>

theorem deleteTransaction_removes_all:
  "(\<forall>t \<in> set (transactions (deleteTransaction i st)). id_txn t \<noteq> i)
   \<and> (\<forall>t. id_txn t \<noteq> i \<longrightarrow>
          count_list (transactions (deleteTransaction i st)) t = count_list (transactions st) t)
   \<and> subseq (transactions (deleteTransaction i st)) (transactions st)"
  unfolding transactions_deleteTransaction
  by (simp add: count_list_filter_kept)

theorem deleteTransaction_removes_all_witness:
  "gaji \<notin> set (transactions (deleteTransaction (id_txn gaji)
                  (empty_state\<lparr>transactions := [gaji, makanan, gaji]\<rparr>)))
   \<and> count_list (transactions (deleteTransaction (id_txn gaji)
                  (empty_state\<lparr>transactions := [gaji, makanan, gaji]\<rparr>))) makanan = 1"
  using deleteTransaction_removes_all
    [of "id_txn gaji" "empty_state\<lparr>transactions := [gaji, makanan, gaji]\<rparr>"]
  by (auto simp add: gaji_def makanan_def)

end
